theory Spec2Isabelle
  imports Complex_Main
begin

section \<open>Python errors\<close>

text \<open>
  Every \<^verbatim>\<open>assert\<close>, every failing index or dictionary lookup and every exception of a
  library call is a value of this type; a function that can raise returns
  \<open>error + 'a\<close> with \<open>Inl\<close> for the exception.
\<close>

datatype error = AssertionError | IndexError | KeyError | ValueError | RuntimeError
  | AttributeError | TypeError | LinAlgError

section \<open>Numbers\<close>

text \<open>
  The tensors of the dynamics code hold floating-point numbers. They are modelled as
  real numbers extended with the three non-finite values: \<open>Fin x\<close> is the number \<open>x\<close>,
  \<open>PInf\<close> and \<open>NInf\<close> are the infinities and \<open>NaN\<close> is not-a-number. Arithmetic on
  finite values is exact (no rounding, no overflow, no signed zero); the non-finite
  values follow IEEE 754: a division of a non-zero number by zero is an infinity,
  \<open>0 / 0\<close>, \<open>\<infinity> - \<infinity>\<close> and \<open>0 * \<infinity>\<close> are \<open>NaN\<close>, and \<open>NaN\<close> propagates.
\<close>

datatype fl = Fin real | PInf | NInf | NaN

instantiation fl :: "{plus, minus, uminus, times, inverse}"
begin

fun plus_fl :: "fl \<Rightarrow> fl \<Rightarrow> fl" where
  "plus_fl (Fin x) (Fin y) = Fin (x + y)"
| "plus_fl NaN b = NaN"
| "plus_fl a NaN = NaN"
| "plus_fl PInf NInf = NaN"
| "plus_fl NInf PInf = NaN"
| "plus_fl PInf b = PInf"
| "plus_fl a PInf = PInf"
| "plus_fl NInf b = NInf"
| "plus_fl a NInf = NInf"

fun uminus_fl :: "fl \<Rightarrow> fl" where
  "uminus_fl (Fin x) = Fin (- x)"
| "uminus_fl PInf = NInf"
| "uminus_fl NInf = PInf"
| "uminus_fl NaN = NaN"

definition minus_fl :: "fl \<Rightarrow> fl \<Rightarrow> fl" where
  "minus_fl a b = a + (- b)"

text \<open>The product of an infinity of sign \<open>pos\<close> with the finite number \<open>x\<close>.\<close>

fun inf_times :: "bool \<Rightarrow> real \<Rightarrow> fl" where
  "inf_times pos x =
     (if x = 0 then NaN else if (0 < x) = pos then PInf else NInf)"

fun times_fl :: "fl \<Rightarrow> fl \<Rightarrow> fl" where
  "times_fl (Fin x) (Fin y) = Fin (x * y)"
| "times_fl NaN b = NaN"
| "times_fl a NaN = NaN"
| "times_fl PInf (Fin y) = inf_times True y"
| "times_fl NInf (Fin y) = inf_times False y"
| "times_fl (Fin x) PInf = inf_times True x"
| "times_fl (Fin x) NInf = inf_times False x"
| "times_fl PInf PInf = PInf"
| "times_fl NInf NInf = PInf"
| "times_fl PInf NInf = NInf"
| "times_fl NInf PInf = NInf"

fun divide_fl :: "fl \<Rightarrow> fl \<Rightarrow> fl" where
  "divide_fl (Fin x) (Fin y) =
     (if y \<noteq> 0 then Fin (x / y)
      else if x = 0 then NaN else if 0 < x then PInf else NInf)"
| "divide_fl NaN b = NaN"
| "divide_fl a NaN = NaN"
| "divide_fl (Fin x) PInf = Fin 0"
| "divide_fl (Fin x) NInf = Fin 0"
| "divide_fl PInf (Fin y) = (if 0 \<le> y then PInf else NInf)"
| "divide_fl NInf (Fin y) = (if 0 \<le> y then NInf else PInf)"
| "divide_fl a b = NaN"

definition inverse_fl :: "fl \<Rightarrow> fl" where
  "inverse_fl a = divide (Fin 1) a"

instance ..

end

text \<open>\<^verbatim>\<open>torch.sign\<close>: \<open>-1\<close>, \<open>0\<close> or \<open>1\<close>, and \<open>NaN\<close> for \<open>NaN\<close>.\<close>

fun sign :: "fl \<Rightarrow> fl" where
  "sign (Fin x) = (if 0 < x then Fin 1 else if x < 0 then Fin (- 1) else Fin 0)"
| "sign PInf = Fin 1"
| "sign NInf = Fin (- 1)"
| "sign NaN = NaN"

text \<open>\<^verbatim>\<open>torch.cos\<close> and \<^verbatim>\<open>torch.sin\<close>: not-a-number outside the finite values.\<close>

fun fcos :: "fl \<Rightarrow> fl" where
  "fcos (Fin x) = Fin (cos x)"
| "fcos a = NaN"

fun fsin :: "fl \<Rightarrow> fl" where
  "fsin (Fin x) = Fin (sin x)"
| "fsin a = NaN"

text \<open>A value is finite when it is neither an infinity nor not-a-number.\<close>

fun is_finite :: "fl \<Rightarrow> bool" where
  "is_finite (Fin x) = True"
| "is_finite a = False"

text \<open>Sum of a list, as \<^verbatim>\<open>torch.sum\<close> and the inner sums of a matrix product.\<close>

definition fsum :: "fl list \<Rightarrow> fl" where
  "fsum xs = foldl (+) (Fin 0) xs"

text \<open>
  The comparison \<^verbatim>\<open><\<close> of two floating-point numbers: false when either is
  not-a-number, and no number is below \<open>-\<infinity>\<close> or above \<open>\<infinity>\<close>.
\<close>

fun fless :: "fl \<Rightarrow> fl \<Rightarrow> bool" where
  "fless (Fin x) (Fin y) = (x < y)"
| "fless (Fin x) PInf = True"
| "fless NInf (Fin y) = True"
| "fless NInf PInf = True"
| "fless a b = False"

text \<open>\<^verbatim>\<open>torch.sqrt\<close>: not-a-number below zero.\<close>

fun fsqrt :: "fl \<Rightarrow> fl" where
  "fsqrt (Fin x) = (if x < 0 then NaN else Fin (sqrt x))"
| "fsqrt PInf = PInf"
| "fsqrt a = NaN"

section \<open>Spatial vector algebra\<close>

text \<open>
  spatial_vector_algebra.py. The dynamics algorithms treat every batch row alike: each
  tensor operation they use acts on row \<open>b\<close> of its operands and gives row \<open>b\<close> of its
  result, and an operand of batch size one is shared by every row. The definitions of
  this and the next two sections are the operations on one batch row: a \<open>[batch, 3]\<close>
  tensor is a \<open>vec3\<close>, a \<open>[batch, 3, 3]\<close> tensor a \<open>mat3\<close> (three rows), a \<open>[batch, 6]\<close>
  tensor a list of six numbers and a \<open>[batch, 6, 6]\<close> tensor a list of six rows.
\<close>

type_synonym vec3 = "fl \<times> fl \<times> fl"
type_synonym mat3 = "vec3 \<times> vec3 \<times> vec3"

definition zeros3 :: vec3 where
  "zeros3 = (Fin 0, Fin 0, Fin 0)"

definition eye3 :: mat3 where
  "eye3 = ((Fin 1, Fin 0, Fin 0), (Fin 0, Fin 1, Fin 0), (Fin 0, Fin 0, Fin 1))"

fun list_of_vec3 :: "vec3 \<Rightarrow> fl list" where
  "list_of_vec3 (x, y, z) = [x, y, z]"

fun vec3_of_list :: "fl list \<Rightarrow> vec3" where
  "vec3_of_list (x # y # z # r) = (x, y, z)"
| "vec3_of_list r = zeros3"

fun vadd :: "vec3 \<Rightarrow> vec3 \<Rightarrow> vec3" where
  "vadd (a, b, c) (x, y, z) = (a + x, b + y, c + z)"

fun vsub :: "vec3 \<Rightarrow> vec3 \<Rightarrow> vec3" where
  "vsub (a, b, c) (x, y, z) = (a - x, b - y, c - z)"

fun vneg :: "vec3 \<Rightarrow> vec3" where
  "vneg (a, b, c) = (- a, - b, - c)"

fun vscale :: "vec3 \<Rightarrow> fl \<Rightarrow> vec3" where
  "vscale (a, b, c) s = (a * s, b * s, c * s)"

fun vdot :: "vec3 \<Rightarrow> vec3 \<Rightarrow> fl" where
  "vdot (a, b, c) (x, y, z) = fsum [a * x, b * y, c * z]"

fun matvec :: "mat3 \<Rightarrow> vec3 \<Rightarrow> vec3" where
  "matvec (r0, r1, r2) v = (vdot r0 v, vdot r1 v, vdot r2 v)"

fun mtranspose :: "mat3 \<Rightarrow> mat3" where
  "mtranspose ((a, b, c), (d, e, f), (g, h, i)) = ((a, d, g), (b, e, h), (c, f, i))"

fun matmul :: "mat3 \<Rightarrow> mat3 \<Rightarrow> mat3" where
  "matmul (r0, r1, r2) B =
     (case mtranspose B of
        (c0, c1, c2) \<Rightarrow>
          ((vdot r0 c0, vdot r0 c1, vdot r0 c2),
           (vdot r1 c0, vdot r1 c1, vdot r1 c2),
           (vdot r2 c0, vdot r2 c1, vdot r2 c2)))"

fun madd3 :: "mat3 \<Rightarrow> mat3 \<Rightarrow> mat3" where
  "madd3 (r0, r1, r2) (s0, s1, s2) = (vadd r0 s0, vadd r1 s1, vadd r2 s2)"

fun mneg3 :: "mat3 \<Rightarrow> mat3" where
  "mneg3 (r0, r1, r2) = (vneg r0, vneg r1, vneg r2)"

fun mscale3 :: "fl \<Rightarrow> mat3 \<Rightarrow> mat3" where
  "mscale3 s ((a, b, c), (d, e, f), (g, h, i)) =
     ((s * a, s * b, s * c), (s * d, s * e, s * f), (s * g, s * h, s * i))"

text \<open>
  Modelled from the spec: \<^verbatim>\<open>utils.cross_product\<close> and \<^verbatim>\<open>utils.vector3_to_skew_symm_matrix\<close>
  (utils.py is not among the sources): the cross product of two 3-vectors, and the
  matrix \<open>[v]\<close> with \<open>[v] w = v \<times> w\<close> ("linear part = rotate linear part + (translation
  \<times> rotated angular part)"); it is the matrix \<open>t\<close> that \<^verbatim>\<open>to_matrix\<close> writes out.
\<close>

fun cross_product :: "vec3 \<Rightarrow> vec3 \<Rightarrow> vec3" where
  "cross_product (a0, a1, a2) (b0, b1, b2) =
     (a1 * b2 - a2 * b1, a2 * b0 - a0 * b2, a0 * b1 - a1 * b0)"

fun vector3_to_skew_symm_matrix :: "vec3 \<Rightarrow> mat3" where
  "vector3_to_skew_symm_matrix (v0, v1, v2) =
     ((Fin 0, - v2, v1), (v2, Fin 0, - v0), (- v1, v0, Fin 0))"

subsection \<open>Rotations about the coordinate axes\<close>

definition x_rot :: "fl \<Rightarrow> mat3" where
  "x_rot angle =
     ((Fin 1, Fin 0, Fin 0),
      (Fin 0, fcos angle, - fsin angle),
      (Fin 0, fsin angle, fcos angle))"

definition y_rot :: "fl \<Rightarrow> mat3" where
  "y_rot angle =
     ((fcos angle, Fin 0, fsin angle),
      (Fin 0, Fin 1, Fin 0),
      (- fsin angle, Fin 0, fcos angle))"

definition z_rot :: "fl \<Rightarrow> mat3" where
  "z_rot angle =
     ((fcos angle, - fsin angle, Fin 0),
      (fsin angle, fcos angle, Fin 0),
      (Fin 0, Fin 0, Fin 1))"

subsection \<open>Six-dimensional vectors and matrices\<close>

definition dot6 :: "fl list \<Rightarrow> fl list \<Rightarrow> fl" where
  "dot6 u v = fsum (map2 (*) u v)"

text \<open>\<^verbatim>\<open>torch.bmm\<close> of a matrix with a column, of two matrices, and of a column with a row.\<close>

definition bmm_vec :: "fl list list \<Rightarrow> fl list \<Rightarrow> fl list" where
  "bmm_vec M v = map (\<lambda>r. dot6 r v) M"

definition bmm :: "fl list list \<Rightarrow> fl list list \<Rightarrow> fl list list" where
  "bmm A B = map (\<lambda>r. map (\<lambda>c. dot6 r c) (transpose B)) A"

definition outer :: "fl list \<Rightarrow> fl list \<Rightarrow> fl list list" where
  "outer u v = map (\<lambda>x. map (\<lambda>y. x * y) v) u"

definition madd :: "fl list list \<Rightarrow> fl list list \<Rightarrow> fl list list" where
  "madd A B = map2 (map2 (+)) A B"

definition msub :: "fl list list \<Rightarrow> fl list list \<Rightarrow> fl list list" where
  "msub A B = map2 (map2 (-)) A B"

subsection \<open>CoordinateTransform\<close>

datatype CoordinateTransform = CoordinateTransform (rotation: mat3) (translation: vec3)

text \<open>\<^verbatim>\<open>CoordinateTransform()\<close>: the identity rotation and the zero translation.\<close>

definition identity_transform :: CoordinateTransform where
  "identity_transform = CoordinateTransform eye3 zeros3"

definition inverse_transform :: "CoordinateTransform \<Rightarrow> CoordinateTransform" where
  "inverse_transform T =
     (let rot_transpose = mtranspose (rotation T)
      in CoordinateTransform rot_transpose (vneg (matvec rot_transpose (translation T))))"

definition multiply_transform ::
  "CoordinateTransform \<Rightarrow> CoordinateTransform \<Rightarrow> CoordinateTransform" where
  "multiply_transform T coordinate_transform =
     (let new_rot = matmul (rotation T) (rotation coordinate_transform);
          new_trans = vadd (matvec (rotation T) (translation coordinate_transform))
                           (translation T)
      in CoordinateTransform new_rot new_trans)"

definition trans_cross_rot :: "CoordinateTransform \<Rightarrow> mat3" where
  "trans_cross_rot T = matmul (vector3_to_skew_symm_matrix (translation T)) (rotation T)"

text \<open>
  \<^verbatim>\<open>to_matrix\<close>: the \<open>6 \<times> 6\<close> matrix with \<open>rot\<^sup>T\<close> in both diagonal blocks,
  \<open>- rot\<^sup>T t\<close> in the lower left block and zeros in the upper right one.
\<close>

definition to_matrix :: "CoordinateTransform \<Rightarrow> fl list list" where
  "to_matrix T =
     (case translation T of
        (t0, t1, t2) \<Rightarrow>
          (let t = ((Fin 0, - t2, t1), (t2, Fin 0, - t0), (- t1, t0, Fin 0));
               rt = mtranspose (rotation T);
               Erx = matmul rt t
           in (case (rt, mneg3 Erx) of
                 ((a0, a1, a2), (e0, e1, e2)) \<Rightarrow>
                   [list_of_vec3 a0 @ [Fin 0, Fin 0, Fin 0],
                    list_of_vec3 a1 @ [Fin 0, Fin 0, Fin 0],
                    list_of_vec3 a2 @ [Fin 0, Fin 0, Fin 0],
                    list_of_vec3 e0 @ list_of_vec3 a0,
                    list_of_vec3 e1 @ list_of_vec3 a1,
                    list_of_vec3 e2 @ list_of_vec3 a2])))"

subsection \<open>SpatialMotionVec and SpatialForceVec\<close>

datatype SpatialMotionVec = SpatialMotionVec (lin: vec3) (ang: vec3)

datatype SpatialForceVec = SpatialForceVec (flin: vec3) (fang: vec3)

text \<open>\<^verbatim>\<open>SpatialForceVec(device=...)\<close> and \<^verbatim>\<open>SpatialMotionVec(device=...)\<close>: zeros.\<close>

definition zero_force :: SpatialForceVec where
  "zero_force = SpatialForceVec zeros3 zeros3"

definition zero_motion :: SpatialMotionVec where
  "zero_motion = SpatialMotionVec zeros3 zeros3"

definition add_motion_vec :: "SpatialMotionVec \<Rightarrow> SpatialMotionVec \<Rightarrow> SpatialMotionVec" where
  "add_motion_vec v smv = SpatialMotionVec (vadd (lin v) (lin smv)) (vadd (ang v) (ang smv))"

definition cross_motion_vec :: "SpatialMotionVec \<Rightarrow> SpatialMotionVec \<Rightarrow> SpatialMotionVec" where
  "cross_motion_vec v smv =
     (let new_ang = cross_product (ang v) (ang smv);
          new_lin = vadd (cross_product (ang v) (lin smv)) (cross_product (lin v) (ang smv))
      in SpatialMotionVec new_lin new_ang)"

definition cross_force_vec :: "SpatialMotionVec \<Rightarrow> SpatialForceVec \<Rightarrow> SpatialForceVec" where
  "cross_force_vec v sfv =
     (let new_ang = vadd (cross_product (ang v) (fang sfv)) (cross_product (lin v) (flin sfv));
          new_lin = cross_product (ang v) (flin sfv)
      in SpatialForceVec new_lin new_ang)"

definition motion_transform :: "SpatialMotionVec \<Rightarrow> CoordinateTransform \<Rightarrow> SpatialMotionVec" where
  "motion_transform v T =
     (let new_ang = matvec (rotation T) (ang v);
          new_lin = vadd (matvec (trans_cross_rot T) (ang v)) (matvec (rotation T) (lin v))
      in SpatialMotionVec new_lin new_ang)"

definition motion_get_vector :: "SpatialMotionVec \<Rightarrow> fl list" where
  "motion_get_vector v = list_of_vec3 (ang v) @ list_of_vec3 (lin v)"

text \<open>
  \<^verbatim>\<open>SpatialMotionVec.multiply\<close> returns a \<^verbatim>\<open>SpatialForceVec\<close> (line 265), which the
  caller passes to \<^verbatim>\<open>add_motion_vec\<close>; \<open>as_motion\<close> is that reading of its two fields.
\<close>

definition motion_multiply :: "SpatialMotionVec \<Rightarrow> fl \<Rightarrow> SpatialForceVec" where
  "motion_multiply v s = SpatialForceVec (vscale (lin v) s) (vscale (ang v) s)"

definition as_motion :: "SpatialForceVec \<Rightarrow> SpatialMotionVec" where
  "as_motion sfv = SpatialMotionVec (flin sfv) (fang sfv)"

text \<open>\<^verbatim>\<open>SpatialMotionVec.dot\<close>, called with a force vector or a motion vector.\<close>

definition motion_dot_force :: "SpatialMotionVec \<Rightarrow> SpatialForceVec \<Rightarrow> fl" where
  "motion_dot_force v sfv = vdot (ang v) (fang sfv) + vdot (lin v) (flin sfv)"

definition add_force_vec :: "SpatialForceVec \<Rightarrow> SpatialForceVec \<Rightarrow> SpatialForceVec" where
  "add_force_vec f sfv = SpatialForceVec (vadd (flin f) (flin sfv)) (vadd (fang f) (fang sfv))"

definition force_transform :: "SpatialForceVec \<Rightarrow> CoordinateTransform \<Rightarrow> SpatialForceVec" where
  "force_transform f T =
     (let new_lin = matvec (rotation T) (flin f);
          new_ang = vadd (matvec (trans_cross_rot T) (flin f)) (matvec (rotation T) (fang f))
      in SpatialForceVec new_lin new_ang)"

definition force_get_vector :: "SpatialForceVec \<Rightarrow> fl list" where
  "force_get_vector f = list_of_vec3 (fang f) @ list_of_vec3 (flin f)"

definition force_multiply :: "SpatialForceVec \<Rightarrow> fl \<Rightarrow> SpatialForceVec" where
  "force_multiply f s = SpatialForceVec (vscale (flin f) s) (vscale (fang f) s)"

text \<open>\<^verbatim>\<open>SpatialForceVec.dot\<close>, called with a motion vector.\<close>

definition force_dot_motion :: "SpatialForceVec \<Rightarrow> SpatialMotionVec \<Rightarrow> fl" where
  "force_dot_motion f smv = vdot (fang f) (ang smv) + vdot (flin f) (lin smv)"

subsection \<open>DifferentiableSpatialRigidBodyInertia\<close>

record inertia_params =
  mass :: fl
  com :: vec3
  inertia_mat :: mat3

definition multiply_motion_vec :: "inertia_params \<Rightarrow> SpatialMotionVec \<Rightarrow> SpatialForceVec" where
  "multiply_motion_vec I smv =
     (let mcom = vscale (com I) (mass I);
          com_skew_symm_mat = vector3_to_skew_symm_matrix (com I);
          inertia = madd3 (inertia_mat I)
                      (mscale3 (mass I) (matmul com_skew_symm_mat (mtranspose com_skew_symm_mat)));
          new_lin_force = vsub (case lin smv of (a, b, c) \<Rightarrow> (mass I * a, mass I * b, mass I * c))
                               (cross_product mcom (ang smv));
          new_ang_force = vadd (matvec inertia (ang smv)) (cross_product mcom (lin smv))
      in SpatialForceVec new_lin_force new_ang_force)"

definition get_spatial_mat :: "inertia_params \<Rightarrow> fl list list" where
  "get_spatial_mat I =
     (case (case com I of (a, b, c) \<Rightarrow> (mass I * a, mass I * b, mass I * c)) of
        (m0, m1, m2) \<Rightarrow>
          (let com_skew_symm_mat = vector3_to_skew_symm_matrix (com I);
               inertia = madd3 (inertia_mat I)
                      (mscale3 (mass I) (matmul com_skew_symm_mat (mtranspose com_skew_symm_mat)))
           in (case inertia of
                 (i0, i1, i2) \<Rightarrow>
                   [list_of_vec3 i0 @ [Fin 0, - m2, m1],
                    list_of_vec3 i1 @ [m2, Fin 0, - m0],
                    list_of_vec3 i2 @ [- m1, m0, Fin 0],
                    [Fin 0, m2, - m1, mass I, Fin 0, Fin 0],
                    [- m2, Fin 0, m0, Fin 0, mass I, Fin 0],
                    [m1, - m0, Fin 0, Fin 0, Fin 0, mass I]])))"

section \<open>The robot model\<close>

subsection \<open>Raising operations\<close>

definition ebind :: "error + 'a \<Rightarrow> ('a \<Rightarrow> error + 'b) \<Rightarrow> error + 'b" where
  "ebind m k = (case m of Inl e \<Rightarrow> Inl e | Inr x \<Rightarrow> k x)"

text \<open>A \<^verbatim>\<open>for\<close> loop over \<open>xs\<close> whose body may raise; the first exception ends it.\<close>

primrec efold :: "('a \<Rightarrow> 's \<Rightarrow> error + 's) \<Rightarrow> 'a list \<Rightarrow> 's \<Rightarrow> error + 's" where
  "efold body [] s = Inr s"
| "efold body (x # xs) s = (case body x s of Inl e \<Rightarrow> Inl e | Inr s' \<Rightarrow> efold body xs s')"

text \<open>\<^verbatim>\<open>xs[i]\<close> for a list and an index that is not negative.\<close>

definition nth_err :: "'a list \<Rightarrow> nat \<Rightarrow> error + 'a" where
  "nth_err xs i = (if i < length xs then Inr (xs ! i) else Inl IndexError)"

text \<open>\<^verbatim>\<open>m[k]\<close> for a dictionary.\<close>

definition lookup_err :: "('k \<Rightarrow> 'v option) \<Rightarrow> 'k \<Rightarrow> error + 'v" where
  "lookup_err m k = (case m k of None \<Rightarrow> Inl KeyError | Some v \<Rightarrow> Inr v)"

subsection \<open>Links\<close>

text \<open>
  A \<^verbatim>\<open>DifferentiableRigidBody\<close>, as one batch row sees it. rigid_body.py is not among
  the sources; the fields are the attributes robot_model.py reads and writes.
  \<^item> \<open>name\<close>, \<open>joint_id\<close>, \<open>joint_idx\<close>, \<open>joint_axis\<close> (the row of the \<open>[1, 3]\<close> tensor),
    \<open>joint_damping\<close> (the value of \<^verbatim>\<open>get_joint_damping_const()\<close>) and \<open>inertia\<close> are fixed
    when the robot is built.
  \<^item> \<open>joint_pose_at\<close>, \<open>joint_vel_at\<close> and \<open>joint_acc_at\<close> stand for the methods
    \<^verbatim>\<open>update_joint_state(q, qd)\<close> and \<^verbatim>\<open>update_joint_acc(qdd)\<close>: the joint pose and joint
    velocity the first stores for the joint position \<open>q\<close> and velocity \<open>qd\<close>, and the
    joint acceleration the second stores for \<open>qdd\<close>.
  \<^item> The remaining fields are written by the algorithms: \<open>joint_pose\<close>, \<open>joint_vel\<close>,
    \<open>joint_acc\<close>, \<open>pose\<close>, \<open>vel\<close>, \<open>acc\<close>, \<open>force\<close>, and the attributes \<^verbatim>\<open>c\<close>, \<^verbatim>\<open>pA\<close>,
    \<^verbatim>\<open>IA\<close>, \<^verbatim>\<open>S\<close>, \<^verbatim>\<open>U\<close>, \<^verbatim>\<open>d\<close>, \<^verbatim>\<open>u\<close> of forward dynamics (named \<open>body_c\<close> ... here).
\<close>

record body =
  name :: string
  joint_id :: nat
  joint_idx :: "nat option"
  joint_axis :: vec3
  joint_damping :: fl
  inertia :: inertia_params
  joint_pose_at :: "fl \<Rightarrow> CoordinateTransform"
  joint_vel_at :: "fl \<Rightarrow> SpatialMotionVec"
  joint_acc_at :: "fl \<Rightarrow> SpatialMotionVec"
  joint_pose :: CoordinateTransform
  joint_vel :: SpatialMotionVec
  joint_acc :: SpatialMotionVec
  pose :: CoordinateTransform
  vel :: SpatialMotionVec
  acc :: SpatialMotionVec
  force :: SpatialForceVec
  body_c :: SpatialMotionVec
  body_pA :: SpatialForceVec
  body_IA :: "fl list list"
  body_S :: SpatialMotionVec
  body_U :: SpatialForceVec
  body_d :: fl
  body_u :: fl

definition update_joint_state :: "body \<Rightarrow> fl \<Rightarrow> fl \<Rightarrow> body" where
  "update_joint_state b q qd = b\<lparr>joint_pose := joint_pose_at b q, joint_vel := joint_vel_at b qd\<rparr>"

definition update_joint_acc :: "body \<Rightarrow> fl \<Rightarrow> body" where
  "update_joint_acc b qdd = b\<lparr>joint_acc := joint_acc_at b qdd\<rparr>"

subsection \<open>DifferentiableRobotModel\<close>

text \<open>
  \<open>parent_body_name\<close> is the table behind \<^verbatim>\<open>self._urdf_model.get_name_of_parent_body\<close>
  (urdf_utils.py is not among the sources): the name of the parent link of each link
  but the root.
\<close>

record robot =
  device :: string
  bodies :: "body list"
  n_dofs :: nat
  controlled_joints :: "nat list"
  name_to_idx_map :: "string \<Rightarrow> nat option"
  parent_body_name :: "string \<Rightarrow> string option"

text \<open>
  \<^verbatim>\<open>__init__\<close> (lines 91-134). The loader's output is a list of links in order, each a
  joint type, the parent's name (none for the root) and the link's body. The link
  at position \<open>i\<close> gets \<open>joint_id = i\<close> (the loader is called with \<open>i\<close>, and the
  algorithms use \<open>joint_id\<close> as an index into \<open>bodies\<close>); a link whose joint is
  not fixed gets the next \<open>joint_idx\<close> and is appended to \<open>controlled_joints\<close>.
\<close>

fun load_links ::
  "(string \<times> string option \<times> body) list \<Rightarrow> nat \<Rightarrow> nat \<Rightarrow> body list \<times> nat list \<times> nat" where
  "load_links [] i n = ([], [], n)"
| "load_links ((joint_type, parent, b) # links) i n =
     (if joint_type \<noteq> ''fixed''
      then (case load_links links (i + 1) (n + 1) of
              (bs, cj, n') \<Rightarrow> (b\<lparr>joint_id := i, joint_idx := Some n\<rparr> # bs, i # cj, n'))
      else (case load_links links (i + 1) n of
              (bs, cj, n') \<Rightarrow> (b\<lparr>joint_id := i, joint_idx := None\<rparr> # bs, cj, n')))"

definition DifferentiableRobotModel ::
  "string \<Rightarrow> (string \<times> string option \<times> body) list \<Rightarrow> robot" where
  "DifferentiableRobotModel dev links =
     (case load_links links 0 0 of
        (bs, cj, n) \<Rightarrow>
          \<lparr> device = dev, bodies = bs, n_dofs = n, controlled_joints = cj,
            name_to_idx_map = fold (\<lambda>(i, b) m. m(name b \<mapsto> i)) (enumerate 0 bs) Map.empty,
            parent_body_name =
              (\<lambda>nm. case map_of (map (\<lambda>(joint_type, parent, b). (name b, parent)) links) nm of
                      Some (Some p) \<Rightarrow> Some p
                    | _ \<Rightarrow> None) \<rparr>)"

definition get_name_of_parent_body :: "robot \<Rightarrow> string \<Rightarrow> error + string" where
  "get_name_of_parent_body self link_name = lookup_err (parent_body_name self) link_name"

text \<open>\<^verbatim>\<open>self._bodies[self._name_to_idx_map[link_name]]\<close> and its index.\<close>

definition body_index :: "robot \<Rightarrow> string \<Rightarrow> error + nat" where
  "body_index self link_name =
     ebind (lookup_err (name_to_idx_map self) link_name)
       (\<lambda>i. if i < length (bodies self) then Inr i else Inl IndexError)"

definition body_named :: "robot \<Rightarrow> string \<Rightarrow> error + body" where
  "body_named self link_name = ebind (body_index self link_name) (\<lambda>i. Inr (bodies self ! i))"

text \<open>An assignment to attributes of \<^verbatim>\<open>self._bodies[i]\<close>.\<close>

definition modify_body :: "nat \<Rightarrow> (body \<Rightarrow> body) \<Rightarrow> robot \<Rightarrow> error + robot" where
  "modify_body i f self =
     (if i < length (bodies self)
      then Inr (self\<lparr>bodies := (bodies self)[i := f (bodies self ! i)]\<rparr>)
      else Inl IndexError)"

text \<open>\<^verbatim>\<open>get_link_names\<close> (lines 1035-1045).\<close>

definition get_link_names :: "robot \<Rightarrow> string list" where
  "get_link_names self = map name (bodies self)"

section \<open>Kinematic state and inverse dynamics\<close>

text \<open>
  The functions of this section are the bodies of the methods of robot_model.py for one
  batch row: \<open>q\<close>, \<open>qd\<close>, \<open>qdd_des\<close> and \<open>f\<close> are rows of the \<open>[batch, n_dofs]\<close> tensors.
  The checks on the number of dimensions and on the batch sizes of the tensors are in
  the section on \<^verbatim>\<open>tensor_check\<close>. A method that writes attributes of the links takes
  the robot and returns the updated robot.
\<close>

subsection \<open>update_kinematic_state (lines 137-199)\<close>

text \<open>One pass of the loop of lines 176-197.\<close>

definition kinematic_step :: "nat \<Rightarrow> robot \<Rightarrow> error + robot" where
  "kinematic_step i self =
     ebind (nth_err (bodies self) i) (\<lambda>bdy.
     ebind (get_name_of_parent_body self (name bdy)) (\<lambda>parent_name.
     ebind (body_named self parent_name) (\<lambda>parent_body.
       (let childToParentT = joint_pose bdy;
            parentToChildT = inverse_transform childToParentT;
            new_pose = multiply_transform (pose parent_body) childToParentT;
            new_vel = motion_transform (vel parent_body) parentToChildT
        in modify_body i
             (\<lambda>b. b\<lparr>pose := new_pose, vel := add_motion_vec (joint_vel bdy) new_vel\<rparr>) self))))"

definition update_kinematic_state :: "robot \<Rightarrow> fl list \<Rightarrow> fl list \<Rightarrow> error + robot" where
  "update_kinematic_state self q qd =
     (if length q \<noteq> n_dofs self then Inl AssertionError
      else if length qd \<noteq> n_dofs self then Inl AssertionError
      else
        ebind (nth_err (controlled_joints self) 0) (\<lambda>first_controlled.
        ebind (efold (\<lambda>i. modify_body i (\<lambda>b. update_joint_state b (Fin 0) (Fin 0)))
                 [0..<first_controlled] self) (\<lambda>s1.
        ebind (efold (\<lambda>i s. ebind (nth_err (controlled_joints s) i) (\<lambda>idx.
                              modify_body idx (\<lambda>b. update_joint_state b (q ! i) (qd ! i)) s))
                 [0..<length q] s1) (\<lambda>s2.
        ebind (modify_body 0 (\<lambda>b. b\<lparr>vel := zero_motion\<rparr>) s2) (\<lambda>s3.
        efold kinematic_step [1..<length (bodies s3)] s3)))))"

subsection \<open>Forward kinematics of all links (lines 201-235)\<close>

text \<open>
  The children of link \<open>i\<close>: the second loop of \<^verbatim>\<open>__init__\<close> (lines 130-134) appends every
  link but the first, in order, to the children of the link its parent's name maps
  to.
\<close>

definition children_of :: "robot \<Rightarrow> nat \<Rightarrow> nat list" where
  "children_of self i =
     filter (\<lambda>j. ebind (get_name_of_parent_body self (name (bodies self ! j)))
                  (lookup_err (name_to_idx_map self)) = Inr i)
       [1..<length (bodies self)]"

text \<open>
  Modelled from the spec: \<^verbatim>\<open>DifferentiableRigidBody.forward_kinematics(q_dict)\<close>, the method
  behind the recursive strategy (rigid_body.py is not among the sources), "a
  structural recursion keyed by link name starting at the root". The call on a link
  returns, for the link and each of its descendants, the transform from the link's
  parent frame to that link, in a dictionary keyed by link name: the link's joint pose
  (at its entry of \<open>q_dict\<close>, or the stored joint pose of a link without an entry)
  applied to the identity for the link itself and to every entry that the calls on
  the children return. A child is visited when its index is above the link's (the
  loader's order puts parents first), which makes the recursion total.
\<close>

function forward_kinematics ::
  "robot \<Rightarrow> (string \<Rightarrow> fl option) \<Rightarrow> nat \<Rightarrow> (string \<Rightarrow> CoordinateTransform option)" where
  "forward_kinematics self q_dict i =
     (let b = bodies self ! i;
          jp = (case q_dict (name b) of Some q \<Rightarrow> joint_pose_at b q | None \<Rightarrow> joint_pose b);
          pose_dict = fold (\<lambda>child m. if i < child then m ++ forward_kinematics self q_dict child
                                        else m)
                        (children_of self i) [name b \<mapsto> identity_transform]
      in (\<lambda>body_name. map_option (multiply_transform jp) (pose_dict body_name)))"
  by pat_completeness auto
termination
  by (relation "measure (\<lambda>(self, q_dict, i). length (bodies self) - i)")
     (auto simp: children_of_def)

declare forward_kinematics.simps [simp del]

text \<open>Lines 216-218: the joint positions keyed by the names of the controlled links.\<close>

definition joint_state_dict :: "robot \<Rightarrow> fl list \<Rightarrow> error + (string \<Rightarrow> fl option)" where
  "joint_state_dict self q =
     efold (\<lambda>i q_dict.
              ebind (nth_err (controlled_joints self) i) (\<lambda>body_idx.
              ebind (nth_err (bodies self) body_idx) (\<lambda>b.
              ebind (nth_err q i) (\<lambda>qi. Inr (q_dict(name b \<mapsto> qi))))))
       [0..<length (controlled_joints self)] Map.empty"

text \<open>
  Lines 231-234. The result holds, per link, the translation and the rotation matrix
  of the pose; the method returns the quaternion \<^verbatim>\<open>get_quaternion()\<close>, which is computed
  from that matrix alone.
\<close>

definition pose_result ::
  "(string \<Rightarrow> CoordinateTransform option) \<Rightarrow> (string \<Rightarrow> (vec3 \<times> mat3) option)" where
  "pose_result pose_dict = (\<lambda>link. map_option (\<lambda>T. (translation T, rotation T)) (pose_dict link))"

definition compute_forward_kinematics_all_links ::
  "robot \<Rightarrow> fl list \<Rightarrow> bool \<Rightarrow> error + robot \<times> (string \<Rightarrow> (vec3 \<times> mat3) option)" where
  "compute_forward_kinematics_all_links self q recursive =
     (if recursive
      then ebind (joint_state_dict self q) (\<lambda>q_dict.
           ebind (nth_err (bodies self) 0) (\<lambda>root_body.
             Inr (self, pose_result (forward_kinematics self q_dict 0))))
      else (let qd = map (\<lambda>x. Fin 0) q
            in ebind (update_kinematic_state self q qd) (\<lambda>s.
               ebind (efold (\<lambda>link_name pose_dict.
                               ebind (body_named s link_name) (\<lambda>b.
                                 Inr (pose_dict(link_name \<mapsto> pose b))))
                        (get_link_names s) Map.empty) (\<lambda>pose_dict.
                 Inr (s, pose_result pose_dict)))))"

subsection \<open>Forward kinematics of one link (lines 237-262)\<close>

text \<open>
  With \<^verbatim>\<open>recursive=True\<close> the method calls \<^verbatim>\<open>compute_forward_kinematics_all_links(q)\<close>,
  whose \<^verbatim>\<open>recursive\<close> then has its default \<^verbatim>\<open>False\<close>.
\<close>

definition compute_forward_kinematics ::
  "robot \<Rightarrow> fl list \<Rightarrow> string \<Rightarrow> bool \<Rightarrow> error + (robot \<times> vec3 \<times> mat3)" where
  "compute_forward_kinematics self q link_name recursive =
     (if recursive
      then ebind (compute_forward_kinematics_all_links self q False) (\<lambda>(s, result).
           ebind (lookup_err result link_name) (\<lambda>(pos, rot). Inr (s, pos, rot)))
      else (let qd = map (\<lambda>x. Fin 0) q
            in ebind (update_kinematic_state self q qd) (\<lambda>s.
               ebind (body_named s link_name) (\<lambda>b.
                 Inr (s, translation (pose b), rotation (pose b))))))"

subsection \<open>iterative_newton_euler (lines 264-317)\<close>

definition acceleration_step :: "nat \<Rightarrow> robot \<Rightarrow> error + robot" where
  "acceleration_step i self =
     ebind (nth_err (bodies self) i) (\<lambda>bdy.
     ebind (get_name_of_parent_body self (name bdy)) (\<lambda>parent_name.
     ebind (body_named self parent_name) (\<lambda>parent_body.
       (let inv_pose = inverse_transform (joint_pose bdy);
            acc_parent_body = motion_transform (acc parent_body) inv_pose;
            tmp = cross_motion_vec (vel bdy) (joint_vel bdy)
        in modify_body i
             (\<lambda>b. b\<lparr>acc := add_motion_vec (add_motion_vec acc_parent_body (joint_acc bdy)) tmp\<rparr>)
             self))))"

definition force_step :: "nat \<Rightarrow> robot \<Rightarrow> error + robot" where
  "force_step i self =
     ebind (nth_err (bodies self) i) (\<lambda>bdy.
       (let icxacc = multiply_motion_vec (inertia bdy) (acc bdy);
            icxvel = multiply_motion_vec (inertia bdy) (vel bdy);
            tmp_force = cross_force_vec (vel bdy) icxvel;
            new_force = add_force_vec (add_force_vec (force bdy) icxacc) tmp_force
        in ebind (modify_body i (\<lambda>b. b\<lparr>force := new_force\<rparr>) self) (\<lambda>s1.
           ebind (get_name_of_parent_body s1 (name bdy)) (\<lambda>parent_name.
           ebind (body_index s1 parent_name) (\<lambda>p.
             (let backprop_force = force_transform new_force (joint_pose bdy)
              in modify_body p
                   (\<lambda>b. b\<lparr>force := add_force_vec (force b) backprop_force\<rparr>) s1))))))"

definition iterative_newton_euler :: "robot \<Rightarrow> SpatialMotionVec \<Rightarrow> error + robot" where
  "iterative_newton_euler self base_acc =
     ebind (modify_body 0 (\<lambda>b. b\<lparr>acc := base_acc\<rparr>) self) (\<lambda>s1.
     ebind (efold acceleration_step [1..<length (bodies s1)] s1) (\<lambda>s2.
     ebind (efold (\<lambda>i. modify_body i (\<lambda>b. b\<lparr>force := zero_force\<rparr>))
              [0..<length (bodies s2)] s2) (\<lambda>s3.
     efold force_step (rev [1..<length (bodies s3)]) s3)))"

subsection \<open>compute_inverse_dynamics (lines 319-389)\<close>

text \<open>
  The base acceleration of lines 357-361 and 786-792: zero, or \<open>9.81\<close> along \<open>z\<close>.
\<close>

definition base_acceleration :: "bool \<Rightarrow> SpatialMotionVec" where
  "base_acceleration include_gravity =
     SpatialMotionVec
       (Fin 0, Fin 0, if include_gravity then Fin (981 / 100) * Fin 1 else Fin 0)
       zeros3"

text \<open>
  Lines 369-376. \<^verbatim>\<open>torch.where(axis)[0]\<close> holds the indices of the components of the axis
  that are not zero, and \<^verbatim>\<open>int\<close> of it raises unless it holds exactly one index. The
  result is the vector \<^verbatim>\<open>rot_axis\<close>: the sign of that component at its index, zero
  elsewhere.
\<close>

definition nonzero_indices :: "vec3 \<Rightarrow> nat list" where
  "nonzero_indices axis = filter (\<lambda>k. list_of_vec3 axis ! k \<noteq> Fin 0) [0, 1, 2]"

definition rot_axis_of :: "vec3 \<Rightarrow> error + vec3" where
  "rot_axis_of axis =
     (case nonzero_indices axis of
        [axis_idx] \<Rightarrow>
          (let rot_sign = sign (list_of_vec3 axis ! axis_idx)
           in Inr (vec3_of_list ((list_of_vec3 zeros3)[axis_idx := rot_sign * Fin 1])))
      | _ \<Rightarrow> Inl ValueError)"

text \<open>One pass of the loop of lines 367-379: \<^verbatim>\<open>force[:, i] += force.ang @ rot_axis\<close>.\<close>

definition torque_step :: "robot \<Rightarrow> nat \<Rightarrow> fl list \<Rightarrow> error + fl list" where
  "torque_step self i frc =
     ebind (nth_err (controlled_joints self) i) (\<lambda>idx.
     ebind (nth_err (bodies self) idx) (\<lambda>bdy.
     ebind (rot_axis_of (joint_axis bdy)) (\<lambda>rot_axis.
       Inr (frc[i := frc ! i + vdot (fang (force bdy)) rot_axis]))))"

text \<open>One pass of the loop of lines 384-386, filling \<^verbatim>\<open>damping_const\<close>.\<close>

definition damping_step :: "robot \<Rightarrow> nat \<Rightarrow> fl list \<Rightarrow> error + fl list" where
  "damping_step self i damping_const =
     ebind (nth_err (controlled_joints self) i) (\<lambda>idx.
     ebind (nth_err (bodies self) idx) (\<lambda>bdy.
       Inr (damping_const[i := joint_damping bdy])))"

definition damping_constants :: "robot \<Rightarrow> error + fl list" where
  "damping_constants self =
     efold (damping_step self) [0..<n_dofs self] (replicate (n_dofs self) (Fin 0))"

definition compute_inverse_dynamics ::
  "robot \<Rightarrow> fl list \<Rightarrow> fl list \<Rightarrow> fl list \<Rightarrow> bool \<Rightarrow> bool \<Rightarrow> error + (robot \<times> fl list)" where
  "compute_inverse_dynamics self q qd qdd_des include_gravity use_damping =
     (if length q \<noteq> n_dofs self then Inl AssertionError
      else if length qd \<noteq> n_dofs self then Inl AssertionError
      else if length qdd_des \<noteq> n_dofs self then Inl AssertionError
      else
        ebind (update_kinematic_state self q qd) (\<lambda>s1.
        ebind (efold (\<lambda>i s. ebind (nth_err (controlled_joints s) i) (\<lambda>idx.
                              modify_body idx (\<lambda>b. update_joint_acc b (qdd_des ! i)) s))
                 [0..<n_dofs s1] s1) (\<lambda>s2.
        ebind (iterative_newton_euler s2 (base_acceleration include_gravity)) (\<lambda>s3.
        ebind (efold (torque_step s3) [0..<length qdd_des] (map (\<lambda>x. Fin 0) qdd_des)) (\<lambda>frc.
          if use_damping
          then ebind (damping_constants s3) (\<lambda>damping_const.
                 Inr (s3, map2 (+) frc (map2 (*) damping_const qd)))
          else Inr (s3, frc))))))"

section \<open>Forward dynamics: the articulated body algorithm\<close>

text \<open>
  The three sweeps of \<^verbatim>\<open>compute_forward_dynamics\<close> (lines 783-884) for one batch row.
  The row \<open>f\<close> is read after the damping of lines 776-781, which acts on the caller's
  tensor and is part of \<open>compute_forward_dynamics\<close> below.
\<close>

text \<open>The first loop (lines 797-805).\<close>

definition aba_init_step :: "nat \<Rightarrow> robot \<Rightarrow> error + robot" where
  "aba_init_step i self =
     ebind (nth_err (bodies self) i) (\<lambda>bdy.
       (let icxvel = multiply_motion_vec (inertia bdy) (vel bdy)
        in modify_body i
             (\<lambda>b. b\<lparr>body_c := cross_motion_vec (vel bdy) (joint_vel bdy),
                     body_pA := cross_force_vec (vel bdy) icxvel,
                     body_IA := get_spatial_mat (inertia bdy)\<rparr>) self))"

text \<open>
  The smoothing constant of lines 830 and 842, \<^verbatim>\<open>1e-37\<close>.
\<close>

definition smoothing :: fl where
  "smoothing = Fin (1 / 10 ^ 37)"

text \<open>
  The second loop (lines 807-856), from the last link down to link 1. The reduced
  inertia \<open>IA'\<close> is a local variable: it is added to the parent's \<^verbatim>\<open>IA\<close> and not written
  back to the link.
\<close>

definition aba_backward_step :: "fl list \<Rightarrow> nat \<Rightarrow> robot \<Rightarrow> error + robot" where
  "aba_backward_step f i self =
     ebind (nth_err (bodies self) i) (\<lambda>bdy.
       (let S = SpatialMotionVec zeros3 (joint_axis bdy);
            Utmp = bmm_vec (body_IA bdy) (motion_get_vector S);
            U = SpatialForceVec (vec3_of_list (drop 3 Utmp)) (vec3_of_list (take 3 Utmp));
            d = motion_dot_force S U
        in ebind (case joint_idx bdy of
                    Some j \<Rightarrow> ebind (nth_err f j) (\<lambda>fj. Inr (fj - force_dot_motion (body_pA bdy) S))
                  | None \<Rightarrow> Inr (- force_dot_motion (body_pA bdy) S)) (\<lambda>u.
           ebind (modify_body i
                    (\<lambda>b. b\<lparr>body_S := S, body_U := U, body_d := d, body_u := u\<rparr>) self) (\<lambda>s1.
           ebind (get_name_of_parent_body s1 (name bdy)) (\<lambda>parent_name.
           ebind (lookup_err (name_to_idx_map s1) parent_name) (\<lambda>parent_idx.
             if parent_idx > 0
             then
               ebind (nth_err (bodies s1) parent_idx) (\<lambda>parent_body.
                 (let Uv = force_get_vector U;
                      Ud = map (\<lambda>x. x / (d + smoothing)) Uv;
                      cv = motion_get_vector (body_c bdy);
                      IA' = msub (body_IA bdy) (outer Uv Ud);
                      tmp = bmm_vec IA' cv;
                      tmps = SpatialForceVec (vec3_of_list (drop 3 tmp)) (vec3_of_list (take 3 tmp));
                      ud = u / (d + smoothing);
                      uu = force_multiply U ud;
                      pa = add_force_vec (add_force_vec (body_pA bdy) tmps) uu;
                      transform_mat = to_matrix (joint_pose bdy)
                  in modify_body parent_idx
                       (\<lambda>b. b\<lparr>body_IA := madd (body_IA b)
                                            (bmm (bmm (transpose transform_mat) IA') transform_mat),
                               body_pA := add_force_vec (body_pA b)
                                            (force_transform pa (joint_pose bdy))\<rparr>) s1))
             else Inr s1))))))"

text \<open>\<^verbatim>\<open>xs.index(x)\<close> for an \<open>x\<close> that is in \<open>xs\<close>: the first position of \<open>x\<close>.\<close>

primrec list_index :: "'a list \<Rightarrow> 'a \<Rightarrow> nat" where
  "list_index [] x = 0"
| "list_index (y # ys) x = (if y = x then 0 else Suc (list_index ys x))"

text \<open>
  The third loop (lines 864-882), from link 1 up; its state is the robot and the row
  of \<^verbatim>\<open>qdd\<close>.
\<close>

definition aba_forward_step :: "nat \<Rightarrow> robot \<times> fl list \<Rightarrow> error + robot \<times> fl list" where
  "aba_forward_step i st =
     (case st of (self, qdd) \<Rightarrow>
     ebind (nth_err (bodies self) i) (\<lambda>bdy.
     ebind (get_name_of_parent_body self (name bdy)) (\<lambda>parent_name.
     ebind (body_named self parent_name) (\<lambda>parent_body.
       (let inv_pose = inverse_transform (joint_pose bdy);
            acc_parent_body = motion_transform (acc parent_body) inv_pose;
            acc1 = add_motion_vec acc_parent_body (body_c bdy)
        in if i \<in> set (controlled_joints self)
           then
             (let joint_idx = list_index (controlled_joints self) i;
                  qdd_j = (Fin 1 / body_d bdy) * (body_u bdy - force_dot_motion (body_U bdy) acc1);
                  acc2 = add_motion_vec acc1 (as_motion (motion_multiply (body_S bdy) qdd_j))
              in if joint_idx < length qdd
                 then ebind (modify_body i (\<lambda>b. b\<lparr>acc := acc2\<rparr>) self) (\<lambda>s1.
                        Inr (s1, qdd[joint_idx := qdd_j]))
                 else Inl IndexError)
           else ebind (modify_body i (\<lambda>b. b\<lparr>acc := acc1\<rparr>) self) (\<lambda>s1. Inr (s1, qdd)))))))"

definition articulated_body_sweeps ::
  "robot \<Rightarrow> fl list \<Rightarrow> fl list \<Rightarrow> fl list \<Rightarrow> bool \<Rightarrow> error + robot \<times> fl list" where
  "articulated_body_sweeps self q qd f include_gravity =
     (let qdd = map (\<lambda>x. Fin 0) q;
          base_acc = base_acceleration include_gravity
      in ebind (update_kinematic_state self q qd) (\<lambda>s1.
         ebind (modify_body 0 (\<lambda>b. b\<lparr>acc := base_acc\<rparr>) s1) (\<lambda>s2.
         ebind (efold aba_init_step [1..<length (bodies s2)] s2) (\<lambda>s3.
         ebind (efold (aba_backward_step f) (rev [1..<length (bodies s3)]) s3) (\<lambda>s4.
         ebind (modify_body 0 (\<lambda>b. b\<lparr>acc := base_acc\<rparr>) s4) (\<lambda>s5.
         efold aba_forward_step [1..<length (bodies s5)] (s5, qdd)))))))"

section \<open>End-effector Jacobians\<close>

text \<open>
  For one batch row, a Jacobian \<open>[3, n_dofs]\<close> is the list of its \<open>n_dofs\<close> columns, and
  the Jacobians of all links \<open>[num_links, 3, n_dofs]\<close> the list of these, one per link.
\<close>

type_synonym jacobian = "vec3 list"

text \<open>The link the walk moves to, and its \<^verbatim>\<open>joint_id\<close> (lines 924-925 and 973-974).\<close>

definition parent_link :: "robot \<Rightarrow> string \<Rightarrow> error + string \<times> nat" where
  "parent_link self link_name =
     ebind (get_name_of_parent_body self link_name) (\<lambda>parent_name.
     ebind (body_named self parent_name) (\<lambda>b. Inr (parent_name, joint_id b)))"

subsection \<open>compute_endeffector_jacobian (lines 886-927)\<close>

text \<open>Lines 913-922: the columns of a controlled joint.\<close>

definition jacobian_columns ::
  "robot \<Rightarrow> vec3 \<Rightarrow> nat \<Rightarrow> jacobian \<times> jacobian \<Rightarrow> error + jacobian \<times> jacobian" where
  "jacobian_columns self p_e jid jac =
     (case jac of (lin_jac, ang_jac) \<Rightarrow>
        if jid \<in> set (controlled_joints self)
        then
          (let i = list_index (controlled_joints self) jid;
               idx = jid
           in ebind (nth_err (bodies self) idx) (\<lambda>b.
                (let p_i = translation (pose b);
                     z_i = matvec (rotation (pose b)) (joint_axis b)
                 in if i < length lin_jac \<and> i < length ang_jac
                    then Inr (lin_jac[i := cross_product z_i (vsub p_e p_i)], ang_jac[i := z_i])
                    else Inl IndexError)))
        else Inr jac)"

text \<open>
  The \<^verbatim>\<open>while link_name != self._bodies[0].name\<close> loop. Nothing in the method bounds the
  number of passes, so the loop is a partial function: \<open>None\<close> is a run that never
  leaves the loop.
\<close>

partial_function (option) jacobian_walk ::
  "robot \<Rightarrow> vec3 \<Rightarrow> string \<Rightarrow> nat \<Rightarrow> jacobian \<times> jacobian
     \<Rightarrow> (error + jacobian \<times> jacobian) option" where
  "jacobian_walk self p_e link_name jid jac =
     (case nth_err (bodies self) 0 of
        Inl e \<Rightarrow> Some (Inl e)
      | Inr root_body \<Rightarrow>
          if link_name \<noteq> name root_body
          then (case jacobian_columns self p_e jid jac of
                  Inl e \<Rightarrow> Some (Inl e)
                | Inr jac' \<Rightarrow>
                    (case parent_link self link_name of
                       Inl e \<Rightarrow> Some (Inl e)
                     | Inr (parent_name, jid') \<Rightarrow> jacobian_walk self p_e parent_name jid' jac'))
          else Some (Inr jac))"

definition compute_endeffector_jacobian ::
  "robot \<Rightarrow> fl list \<Rightarrow> string \<Rightarrow> (error + robot \<times> jacobian \<times> jacobian) option" where
  "compute_endeffector_jacobian self q link_name =
     (case compute_forward_kinematics self q link_name False of
        Inl e \<Rightarrow> Some (Inl e)
      | Inr (s, pos, rot) \<Rightarrow>
          (case body_named s link_name of
             Inl e \<Rightarrow> Some (Inl e)
           | Inr e_body \<Rightarrow>
               (let p_e = translation (pose e_body);
                    zeros = replicate (n_dofs s) zeros3
                in (case jacobian_walk s p_e link_name (joint_id e_body) (zeros, zeros) of
                      None \<Rightarrow> None
                    | Some (Inl e) \<Rightarrow> Some (Inl e)
                    | Some (Inr (lin_jac, ang_jac)) \<Rightarrow> Some (Inr (s, lin_jac, ang_jac))))))"

subsection \<open>compute_endeffector_jacobian_all_links (lines 929-976)\<close>

text \<open>
  Lines 962-971. The slice assignments write column \<open>i\<close> of the linear Jacobian of
  every link of index \<open>idx + 1\<close> and above, pairing link \<open>L\<close> with \<open>p_es[L - 1]\<close>, and
  column \<open>i\<close> of the angular Jacobian of every link of index \<open>idx\<close> and above.
\<close>

definition jacobian_columns_all ::
  "robot \<Rightarrow> vec3 list \<Rightarrow> nat \<Rightarrow> jacobian list \<times> jacobian list
     \<Rightarrow> error + jacobian list \<times> jacobian list" where
  "jacobian_columns_all self p_es jid jac =
     (case jac of (lin_jac, ang_jac) \<Rightarrow>
        if jid \<in> set (controlled_joints self)
        then
          (let i = list_index (controlled_joints self) jid;
               idx = jid
           in ebind (nth_err (bodies self) idx) (\<lambda>b.
                (let p_i = translation (pose b);
                     z_i = matvec (rotation (pose b)) (joint_axis b)
                 in if i < n_dofs self
                    then Inr (map (\<lambda>(l, cols).
                                 if idx + 1 \<le> l
                                 then cols[i := cross_product z_i (vsub (p_es ! (l - 1)) p_i)]
                                 else cols) (enumerate 0 lin_jac),
                              map (\<lambda>(l, cols). if idx \<le> l then cols[i := z_i] else cols)
                                (enumerate 0 ang_jac))
                    else Inl IndexError)))
        else Inr jac)"

partial_function (option) jacobian_walk_all ::
  "robot \<Rightarrow> vec3 list \<Rightarrow> string \<Rightarrow> nat \<Rightarrow> jacobian list \<times> jacobian list
     \<Rightarrow> (error + jacobian list \<times> jacobian list) option" where
  "jacobian_walk_all self p_es link_name jid jac =
     (case nth_err (bodies self) 0 of
        Inl e \<Rightarrow> Some (Inl e)
      | Inr root_body \<Rightarrow>
          if link_name \<noteq> name root_body
          then (case jacobian_columns_all self p_es jid jac of
                  Inl e \<Rightarrow> Some (Inl e)
                | Inr jac' \<Rightarrow>
                    (case parent_link self link_name of
                       Inl e \<Rightarrow> Some (Inl e)
                     | Inr (parent_name, jid') \<Rightarrow>
                         jacobian_walk_all self p_es parent_name jid' jac'))
          else Some (Inr jac))"

text \<open>
  \<^verbatim>\<open>p_es\<close>: the positions of the links named \<^verbatim>\<open>link_names[1:]\<close>; \<^verbatim>\<open>torch.stack\<close> raises on an
  empty list.
\<close>

definition link_positions :: "robot \<Rightarrow> string list \<Rightarrow> error + vec3 list" where
  "link_positions self names =
     efold (\<lambda>l ps. ebind (body_named self l) (\<lambda>b. Inr (ps @ [translation (pose b)]))) names []"

definition compute_endeffector_jacobian_all_links ::
  "robot \<Rightarrow> fl list \<Rightarrow> (error + robot \<times> jacobian list \<times> jacobian list) option" where
  "compute_endeffector_jacobian_all_links self q =
     (let link_names = get_link_names self;
          num_links = length link_names
      in if link_names = [] then Some (Inl IndexError)
         else
           (let link_name = last link_names
            in (case compute_forward_kinematics self q link_name False of
                  Inl e \<Rightarrow> Some (Inl e)
                | Inr (s, pos, rot) \<Rightarrow>
                    (case link_positions s (tl link_names) of
                       Inl e \<Rightarrow> Some (Inl e)
                     | Inr p_es \<Rightarrow>
                         if p_es = [] then Some (Inl RuntimeError)
                         else
                           (case body_named s link_name of
                              Inl e \<Rightarrow> Some (Inl e)
                            | Inr e_body \<Rightarrow>
                                (let zeros = replicate num_links (replicate (n_dofs s) zeros3)
                                 in (case jacobian_walk_all s p_es link_name (joint_id e_body)
                                            (zeros, zeros) of
                                       None \<Rightarrow> None
                                     | Some (Inl e) \<Rightarrow> Some (Inl e)
                                     | Some (Inr (lin_jac, ang_jac)) \<Rightarrow>
                                         Some (Inr (s, lin_jac, ang_jac)))))))))"

section \<open>Tensors and the tensor_check decorator\<close>

text \<open>
  A tensor a caller passes is a reference: the address of its storage, its shape and
  its device. The storages are in a heap, each a flat list of elements in row-major
  order. \<^verbatim>\<open>unsqueeze(0)\<close> returns a view: the same storage under a longer shape, so a
  write through the view is a write to the caller's tensor. A tensor that a method
  creates and returns is given by value, as its shape and its elements.
\<close>

record tensor =
  storage :: nat
  tshape :: "nat list"
  tdevice :: string

type_synonym 'a heap = "nat \<Rightarrow> 'a list"

record 'a tval =
  vshape :: "nat list"
  vdata :: "'a list"

text \<open>The arguments of a call, and what a method returns.\<close>

datatype arg = Tensor tensor | Bool bool | Str string | NoneArg

datatype 'a ret = RTensor "'a tval" | RTuple "'a ret list" | RDict "(string \<times> 'a ret) list" | RNone

record BatchInfo =
  bshape :: "nat list"
  binit :: bool

definition unsqueeze0 :: "tensor \<Rightarrow> tensor" where
  "unsqueeze0 t = t\<lparr>tshape := 1 # tshape t\<rparr>"

text \<open>\<^verbatim>\<open>preprocess\<close> (lines 32-53); \<open>dev\<close> is \<^verbatim>\<open>obj._device.type\<close>.\<close>

definition preprocess :: "string \<Rightarrow> arg \<Rightarrow> BatchInfo \<Rightarrow> error + arg \<times> BatchInfo" where
  "preprocess dev a batch_info =
     (case a of
        Tensor t \<Rightarrow>
          if tdevice t \<noteq> dev then Inl AssertionError
          else if length (tshape t) \<noteq> 1 \<and> length (tshape t) \<noteq> 2 then Inl AssertionError
          else if binit batch_info \<and> bshape batch_info \<noteq> butlast (tshape t)
               then Inl AssertionError
          else
            (let batch_info' = (if binit batch_info then batch_info
                                else \<lparr>bshape = butlast (tshape t), binit = True\<rparr>)
             in if length (bshape batch_info') = 0
                then Inr (Tensor (unsqueeze0 t), batch_info')
                else Inr (a, batch_info'))
      | _ \<Rightarrow> Inr (a, batch_info))"

text \<open>
  The arguments are processed in order, the positional ones and then the keyword ones,
  with one \<^verbatim>\<open>BatchInfo\<close>; the list holds them in that order.
\<close>

fun preprocess_all :: "string \<Rightarrow> arg list \<Rightarrow> BatchInfo \<Rightarrow> error + arg list \<times> BatchInfo" where
  "preprocess_all dev [] batch_info = Inr ([], batch_info)"
| "preprocess_all dev (a # as) batch_info =
     (case preprocess dev a batch_info of
        Inl e \<Rightarrow> Inl e
      | Inr (a', batch_info') \<Rightarrow>
          (case preprocess_all dev as batch_info' of
             Inl e \<Rightarrow> Inl e
           | Inr (as', batch_info'') \<Rightarrow> Inr (a' # as', batch_info'')))"

text \<open>\<^verbatim>\<open>arg[0, ...]\<close> on a returned tensor.\<close>

definition index0 :: "'a tval \<Rightarrow> error + 'a tval" where
  "index0 t =
     (case vshape t of
        [] \<Rightarrow> Inl IndexError
      | n # sh \<Rightarrow> if n = 0 then Inl IndexError
                  else Inr \<lparr>vshape = sh, vdata = take (prod_list sh) (vdata t)\<rparr>)"

text \<open>\<^verbatim>\<open>postprocess\<close> (lines 55-59).\<close>

definition postprocess :: "'a ret \<Rightarrow> BatchInfo \<Rightarrow> error + 'a ret" where
  "postprocess r batch_info =
     (case r of
        RTensor t \<Rightarrow>
          if binit batch_info \<and> length (bshape batch_info) = 0
          then (case index0 t of Inl e \<Rightarrow> Inl e | Inr t' \<Rightarrow> Inr (RTensor t'))
          else Inr r
      | _ \<Rightarrow> Inr r)"

fun postprocess_all :: "'a ret list \<Rightarrow> BatchInfo \<Rightarrow> error + 'a ret list" where
  "postprocess_all [] batch_info = Inr []"
| "postprocess_all (r # rs) batch_info =
     (case postprocess r batch_info of
        Inl e \<Rightarrow> Inl e
      | Inr r' \<Rightarrow>
          (case postprocess_all rs batch_info of
             Inl e \<Rightarrow> Inl e
           | Inr rs' \<Rightarrow> Inr (r' # rs')))"

text \<open>
  \<^verbatim>\<open>wrapper\<close> (lines 61-79). The decorated method takes the state it may change (here
  the heap) and the processed arguments, and returns the new state and its result or
  the exception it raised.
\<close>

definition tensor_check ::
  "string \<Rightarrow> ('s \<Rightarrow> arg list \<Rightarrow> 's \<times> (error + 'a ret)) \<Rightarrow> 's \<Rightarrow> arg list
     \<Rightarrow> 's \<times> (error + 'a ret)" where
  "tensor_check dev function st args =
     (case preprocess_all dev args \<lparr>bshape = [], binit = False\<rparr> of
        Inl e \<Rightarrow> (st, Inl e)
      | Inr (processed_args, batch_info) \<Rightarrow>
          (case function st processed_args of
             (st', Inl e) \<Rightarrow> (st', Inl e)
           | (st', Inr r) \<Rightarrow>
               (st', (case r of
                        RTensor t \<Rightarrow> postprocess r batch_info
                      | RTuple rs \<Rightarrow>
                          (case postprocess_all rs batch_info of
                             Inl e \<Rightarrow> Inl e
                           | Inr rs' \<Rightarrow> Inr (RTuple rs'))
                      | _ \<Rightarrow> Inr r))))"

subsection \<open>compute_forward_dynamics (lines 747-884)\<close>

text \<open>Row \<open>b\<close> of a two-dimensional tensor whose rows have \<open>w\<close> elements.\<close>

definition row_of :: "'a list \<Rightarrow> nat \<Rightarrow> nat \<Rightarrow> 'a list" where
  "row_of xs w b = take w (drop (b * w) xs)"

text \<open>
  \<^verbatim>\<open>f -= D\<close> for \<open>f\<close> of shape \<open>[B, m]\<close> and \<open>D\<close> of shape \<open>[B, n]\<close>: element by element when
  \<open>m = n\<close>; when \<open>n = 1\<close> the one column of \<open>D\<close> is broadcast over the columns of \<open>f\<close>;
  otherwise the shapes do not fit and torch raises, leaving \<open>f\<close> as it is.
\<close>

definition isub :: "nat \<Rightarrow> nat \<Rightarrow> fl list \<Rightarrow> fl list \<Rightarrow> error + fl list" where
  "isub m n fdata ddata =
     (if m = n then Inr (map2 (-) fdata ddata)
      else if n = 1 then Inr (map (\<lambda>k. fdata ! k - ddata ! (k div m)) [0..<length fdata])
      else Inl RuntimeError)"

text \<open>
  Lines 776-781: the heap after \<^verbatim>\<open>f -= damping_const.repeat(batch_size, 1) * qd\<close>.
\<close>

definition apply_damping :: "robot \<Rightarrow> fl heap \<Rightarrow> tensor \<Rightarrow> tensor \<Rightarrow> nat \<Rightarrow> error + fl heap" where
  "apply_damping self h qd f batch_size =
     ebind (damping_constants self) (\<lambda>damping_const.
       (let D = map2 (*) (concat (replicate batch_size damping_const)) (h (storage qd))
        in ebind (isub (tshape f ! 1) (n_dofs self) (h (storage f)) D) (\<lambda>fdata.
             Inr (h(storage f := fdata)))))"

text \<open>The rows of the result, one run of the three sweeps per batch row.\<close>

fun sweep_rows ::
  "robot \<Rightarrow> fl list list \<Rightarrow> fl list list \<Rightarrow> fl list list \<Rightarrow> bool \<Rightarrow> error + fl list list" where
  "sweep_rows self [] qds fs include_gravity = Inr []"
| "sweep_rows self (q # qs) qds fs include_gravity =
     (case articulated_body_sweeps self q (hd qds) (hd fs) include_gravity of
        Inl e \<Rightarrow> Inl e
      | Inr (s, qdd) \<Rightarrow>
          (case sweep_rows self qs (tl qds) (tl fs) include_gravity of
             Inl e \<Rightarrow> Inl e
           | Inr rest \<Rightarrow> Inr (qdd # rest)))"

text \<open>
  The method under the decorator. The decorator has made \<open>q\<close>, \<open>qd\<close> and \<open>f\<close>
  two-dimensional and of one batch size; the cases of another argument list and of an
  \<open>f\<close> that is not two-dimensional are not reached through it. The fields of the links it leaves behind
  are those of \<open>articulated_body_sweeps\<close>, row by row; what the caller sees is the
  heap and the returned tensor.
\<close>

definition compute_forward_dynamics_body ::
  "robot \<Rightarrow> fl heap \<Rightarrow> arg list \<Rightarrow> fl heap \<times> (error + fl ret)" where
  "compute_forward_dynamics_body self h args =
     (case args of
        [Tensor q, Tensor qd, Tensor f, Bool include_gravity, Bool use_damping] \<Rightarrow>
          if length (tshape q) \<noteq> 2 then (h, Inl AssertionError)
          else if length (tshape qd) \<noteq> 2 then (h, Inl AssertionError)
          else if tshape q ! 1 \<noteq> n_dofs self then (h, Inl AssertionError)
          else if tshape qd ! 1 \<noteq> n_dofs self then (h, Inl AssertionError)
          else if length (tshape f) \<noteq> 2 then (h, Inl RuntimeError)
          else
            (let batch_size = tshape q ! 0
             in (case (if use_damping then apply_damping self h qd f batch_size else Inr h) of
                   Inl e \<Rightarrow> (h, Inl e)
                 | Inr h' \<Rightarrow>
                     (let rows = (\<lambda>t. map (row_of (h' (storage t)) (tshape t ! 1)) [0..<batch_size])
                      in (h', (case sweep_rows self (rows q) (rows qd) (rows f) include_gravity of
                                 Inl e \<Rightarrow> Inl e
                               | Inr qdd \<Rightarrow>
                                   Inr (RTensor \<lparr>vshape = tshape q, vdata = concat qdd\<rparr>))))))
      | _ \<Rightarrow> (h, Inl TypeError))"

definition compute_forward_dynamics ::
  "robot \<Rightarrow> fl heap \<Rightarrow> arg list \<Rightarrow> fl heap \<times> (error + fl ret)" where
  "compute_forward_dynamics self = tensor_check (device self) (compute_forward_dynamics_body self)"

subsection \<open>A call with rows and the call with the batch of one\<close>

text \<open>
  To compare a call on one-dimensional tensors with the call on the same tensors as
  batches of one row: \<open>unsqueeze_arg\<close> turns a tensor argument into its view with a
  leading dimension of one, and \<open>first_row\<close> takes \<^verbatim>\<open>[0, ...]\<close> of a returned tensor, and
  of each tensor of a returned tuple.
\<close>

definition unsqueeze_arg :: "arg \<Rightarrow> arg" where
  "unsqueeze_arg a = (case a of Tensor t \<Rightarrow> Tensor (unsqueeze0 t) | _ \<Rightarrow> a)"

definition first_row_tensor :: "'a ret \<Rightarrow> error + 'a ret" where
  "first_row_tensor r =
     (case r of
        RTensor t \<Rightarrow> (case index0 t of Inl e \<Rightarrow> Inl e | Inr t' \<Rightarrow> Inr (RTensor t'))
      | _ \<Rightarrow> Inr r)"

fun first_row_tensors :: "'a ret list \<Rightarrow> error + 'a ret list" where
  "first_row_tensors [] = Inr []"
| "first_row_tensors (r # rs) =
     (case first_row_tensor r of
        Inl e \<Rightarrow> Inl e
      | Inr r' \<Rightarrow>
          (case first_row_tensors rs of
             Inl e \<Rightarrow> Inl e
           | Inr rs' \<Rightarrow> Inr (r' # rs')))"

definition first_row :: "'a ret \<Rightarrow> error + 'a ret" where
  "first_row r =
     (case r of
        RTensor t \<Rightarrow> first_row_tensor r
      | RTuple rs \<Rightarrow> (case first_row_tensors rs of Inl e \<Rightarrow> Inl e | Inr rs' \<Rightarrow> Inr (RTuple rs'))
      | _ \<Rightarrow> Inr r)"

definition is_tensor :: "arg \<Rightarrow> bool" where
  "is_tensor a = (case a of Tensor t \<Rightarrow> True | _ \<Rightarrow> False)"

text \<open>A tensor argument with one dimension on the device \<open>dev\<close>, or no tensor.\<close>

definition one_row_on :: "string \<Rightarrow> arg \<Rightarrow> bool" where
  "one_row_on dev a =
     (case a of Tensor t \<Rightarrow> tdevice t = dev \<and> length (tshape t) = 1 | _ \<Rightarrow> True)"

section \<open>Example robots\<close>

text \<open>
  Links to evaluate the algorithms on. The root link has no joint. A revolute link
  turns about a coordinate axis of its frame: its joint pose is the rotation by \<open>q\<close>
  about that axis at the offset \<open>tr\<close>, its joint velocity and acceleration are
  angular, \<open>qd\<close> and \<open>qdd\<close> times the axis. The fields the algorithms write start at
  zero.
\<close>

definition zero_inertia :: inertia_params where
  "zero_inertia =
     \<lparr> mass = Fin 0, com = zeros3, inertia_mat = (zeros3, zeros3, zeros3) \<rparr>"

definition fixed_link :: "string \<Rightarrow> vec3 \<Rightarrow> inertia_params \<Rightarrow> body" where
  "fixed_link nm tr I =
     \<lparr> name = nm, joint_id = 0, joint_idx = None, joint_axis = zeros3,
       joint_damping = Fin 0, inertia = I,
       joint_pose_at = (\<lambda>q. CoordinateTransform eye3 tr),
       joint_vel_at = (\<lambda>qd. zero_motion),
       joint_acc_at = (\<lambda>qdd. zero_motion),
       joint_pose = CoordinateTransform eye3 tr, joint_vel = zero_motion,
       joint_acc = zero_motion, pose = identity_transform, vel = zero_motion,
       acc = zero_motion, force = zero_force, body_c = zero_motion, body_pA = zero_force,
       body_IA = [], body_S = zero_motion, body_U = zero_force, body_d = Fin 0,
       body_u = Fin 0 \<rparr>"

definition axis_rotation :: "vec3 \<Rightarrow> fl \<Rightarrow> mat3" where
  "axis_rotation axis q =
     (case axis of (ax, ay, az) \<Rightarrow>
        if ax = Fin 1 \<or> ax = Fin (- 1) then x_rot (sign ax * q)
        else if ay = Fin 1 \<or> ay = Fin (- 1) then y_rot (sign ay * q)
        else z_rot (sign az * q))"

definition revolute_link :: "string \<Rightarrow> vec3 \<Rightarrow> vec3 \<Rightarrow> inertia_params \<Rightarrow> fl \<Rightarrow> body" where
  "revolute_link nm axis tr I damping =
     (fixed_link nm tr I)
       \<lparr> joint_axis := axis, joint_damping := damping,
         joint_pose_at := (\<lambda>q. CoordinateTransform (axis_rotation axis q) tr),
         joint_vel_at := (\<lambda>qd. SpatialMotionVec zeros3 (vscale axis qd)),
         joint_acc_at := (\<lambda>qdd. SpatialMotionVec zeros3 (vscale axis qdd)) \<rparr>"

text \<open>
  A base and one revolute link about \<open>z\<close> without mass and inertia: a "virtual" link at
  the end of the chain.
\<close>

definition massless_pendulum :: robot where
  "massless_pendulum =
     DifferentiableRobotModel ''cpu''
       [(''fixed'', None, fixed_link ''base'' zeros3 zero_inertia),
        (''revolute'', Some ''base'',
           revolute_link ''arm'' (Fin 0, Fin 0, Fin 1) zeros3 zero_inertia (Fin 0))]"

text \<open>A base and one revolute link about \<open>z\<close> with a point mass at \<open>(1, 0, 0)\<close>.\<close>

definition point_mass :: inertia_params where
  "point_mass =
     \<lparr> mass = Fin 1, com = (Fin 1, Fin 0, Fin 0), inertia_mat = (zeros3, zeros3, zeros3) \<rparr>"

definition pendulum :: robot where
  "pendulum =
     DifferentiableRobotModel ''cpu''
       [(''fixed'', None, fixed_link ''base'' zeros3 zero_inertia),
        (''revolute'', Some ''base'',
           revolute_link ''arm'' (Fin 0, Fin 0, Fin 1) zeros3 point_mass (Fin 0))]"

text \<open>
  The same with the unit joint axis \<open>(0.6, 0.8, 0)\<close>, which is not along a coordinate
  axis.
\<close>

definition skew_pendulum :: robot where
  "skew_pendulum =
     DifferentiableRobotModel ''cpu''
       [(''fixed'', None, fixed_link ''base'' zeros3 zero_inertia),
        (''revolute'', Some ''base'',
           revolute_link ''arm'' (Fin (6 / 10), Fin (8 / 10), Fin 0) zeros3 point_mass (Fin 0))]"

text \<open>
  A tree with a branch at the base: two revolute links about \<open>z\<close>, both children of
  the base, at the offsets \<open>(1, 0, 0)\<close> and \<open>(0, 1, 0)\<close>.
\<close>

definition two_arms :: robot where
  "two_arms =
     DifferentiableRobotModel ''cpu''
       [(''fixed'', None, fixed_link ''base'' zeros3 zero_inertia),
        (''revolute'', Some ''base'',
           revolute_link ''left'' (Fin 0, Fin 0, Fin 1) (Fin 1, Fin 0, Fin 0) point_mass (Fin 0)),
        (''revolute'', Some ''base'',
           revolute_link ''right'' (Fin 0, Fin 0, Fin 1) (Fin 0, Fin 1, Fin 0) point_mass (Fin 0))]"

text \<open>The pendulum with the joint damping constant \<open>2\<close>.\<close>

definition damped_pendulum :: robot where
  "damped_pendulum =
     DifferentiableRobotModel ''cpu''
       [(''fixed'', None, fixed_link ''base'' zeros3 zero_inertia),
        (''revolute'', Some ''base'',
           revolute_link ''arm'' (Fin 0, Fin 0, Fin 1) zeros3 point_mass (Fin 2))]"

subsection \<open>Example tensors\<close>

text \<open>A tensor on the CPU at the address \<open>p\<close> with the shape \<open>sh\<close>.\<close>

definition cpu_tensor :: "nat \<Rightarrow> nat list \<Rightarrow> tensor" where
  "cpu_tensor p sh = \<lparr> storage = p, tshape = sh, tdevice = ''cpu'' \<rparr>"

text \<open>A heap whose storages \<open>0, 1, 2, ...\<close> hold the given lists; the others are empty.\<close>

definition heap_of :: "'a list list \<Rightarrow> 'a heap" where
  "heap_of xss p = (if p < length xss then xss ! p else [])"

section \<open>Damped-least-squares inverse kinematics\<close>

text \<open>
  \<^verbatim>\<open>compute_inverse_kinematics_jac\<close> (robot_model.py, lines 428-563). Configurations and
  poses are lists of floating-point numbers. Three computations the loop calls are taken as
  parameters, each of which may raise:
  \<^item> \<open>euler_from_quaternion\<close>: the private \<^verbatim>\<open>__euler_from_quaternion\<close> (square roots and
    \<^verbatim>\<open>atan2\<close>; it raises on a quaternion of norm zero);
  \<^item> \<open>link_pose\<close>: \<^verbatim>\<open>compute_forward_kinematics(curr_conf, link_name=link_name)\<close>, returning
    position and quaternion of the queried link;
  \<^item> \<open>dls_delta\<close>: \<^verbatim>\<open>compute_endeffector_jacobian\<close> followed by the damped-least-squares solve
    \<^verbatim>\<open>jac.T @ solve(jac @ jac.T + damping_factor ** 2 * eye, curr_delta_pose)\<close>.
\<close>

type_synonym conf = "fl list"

record ik_ops =
  euler_from_quaternion :: "fl list \<Rightarrow> error + fl list"
  link_pose :: "conf \<Rightarrow> error + (fl list \<times> fl list)"
  dls_delta :: "conf \<Rightarrow> fl list \<Rightarrow> error + fl list"

record ik_settings =
  max_num_iter :: int
  min_precision :: fl
  min_convergency_update :: fl
  learning_rate :: fl

text \<open>\<^verbatim>\<open>torch.norm\<close> of a vector.\<close>

definition norm2 :: "fl list \<Rightarrow> fl" where
  "norm2 v = fsqrt (fsum (map (\<lambda>x. x * x) v))"

text \<open>
  \<open>below_min_error d m\<close> is the test \<^verbatim>\<open>delta_norm < min_error\<close> of line 501; \<^verbatim>\<open>min_error\<close>
  starts as \<^verbatim>\<open>torch.inf\<close>, which no infinite norm and no not-a-number is below.
\<close>

definition below_min_error :: "fl \<Rightarrow> fl \<Rightarrow> bool" where
  "below_min_error d m = fless d m"

text \<open>
  \<^verbatim>\<open>curr_pose = torch.cat((curr_pos, self.__euler_from_quaternion(curr_rot)))\<close>
\<close>

definition curr_pose_of :: "ik_ops \<Rightarrow> conf \<Rightarrow> error + fl list" where
  "curr_pose_of ops curr_conf =
     (case link_pose ops curr_conf of
        Inl e \<Rightarrow> Inl e
      | Inr (curr_pos, curr_rot) \<Rightarrow>
          (case euler_from_quaternion ops curr_rot of
             Inl e \<Rightarrow> Inl e
           | Inr eul \<Rightarrow> Inr (curr_pos @ eul)))"

text \<open>
  The \<^verbatim>\<open>while True\<close> loop of one batch row (lines 487-534). The loop state is the
  iteration counter \<open>i\<close>, \<open>curr_conf\<close>, \<open>min_error\<close> and the row \<open>final_conf[th_idx]\<close>;
  the result is the last two when the loop breaks.
\<close>

function ik_while ::
  "ik_ops \<Rightarrow> ik_settings \<Rightarrow> fl list \<Rightarrow> int \<Rightarrow> conf \<Rightarrow> fl \<Rightarrow> conf
     \<Rightarrow> error + (fl \<times> conf)" where
  "ik_while ops P goal_pose i curr_conf min_error final_row =
     (case curr_pose_of ops curr_conf of
        Inl e \<Rightarrow> Inl e
      | Inr curr_pose \<Rightarrow>
          (let curr_delta_pose = map2 (-) goal_pose curr_pose;
               delta_norm = norm2 curr_delta_pose;
               min_error' = (if below_min_error delta_norm min_error
                             then delta_norm else min_error);
               final_row' = (if below_min_error delta_norm min_error
                             then curr_conf else final_row)
           in if fless delta_norm (min_precision P) then Inr (min_error', final_row')
              else if i \<ge> max_num_iter P then Inr (min_error', final_row')
              else (case dls_delta ops curr_conf curr_delta_pose of
                      Inl e \<Rightarrow> Inl e
                    | Inr curr_delta_conf \<Rightarrow>
                        if fless (norm2 curr_delta_conf) (min_convergency_update P)
                        then Inr (min_error', final_row')
                        else ik_while ops P goal_pose (i + 1)
                               (map2 (\<lambda>c d. c + learning_rate P * d) curr_conf curr_delta_conf)
                               min_error' final_row')))"
  by pat_completeness auto
termination
  by (relation "measure (\<lambda>(ops, P, goal_pose, i, curr_conf, min_error, final_row).
                    nat (max_num_iter P - i))") auto

text \<open>
  The configurations the loop evaluates for one row, in order: the same control flow
  as \<open>ik_while\<close>, collecting \<open>curr_conf\<close> at each pass.
\<close>

function ik_evaluated :: "ik_ops \<Rightarrow> ik_settings \<Rightarrow> fl list \<Rightarrow> int \<Rightarrow> conf \<Rightarrow> conf list" where
  "ik_evaluated ops P goal_pose i curr_conf =
     curr_conf #
     (case curr_pose_of ops curr_conf of
        Inl e \<Rightarrow> []
      | Inr curr_pose \<Rightarrow>
          (let curr_delta_pose = map2 (-) goal_pose curr_pose;
               delta_norm = norm2 curr_delta_pose
           in if fless delta_norm (min_precision P) then []
              else if i \<ge> max_num_iter P then []
              else (case dls_delta ops curr_conf curr_delta_pose of
                      Inl e \<Rightarrow> []
                    | Inr curr_delta_conf \<Rightarrow>
                        if fless (norm2 curr_delta_conf) (min_convergency_update P) then []
                        else ik_evaluated ops P goal_pose (i + 1)
                               (map2 (\<lambda>c d. c + learning_rate P * d) curr_conf curr_delta_conf))))"
  by pat_completeness auto
termination
  by (relation "measure (\<lambda>(ops, P, goal_pose, i, curr_conf). nat (max_num_iter P - i))") auto

declare ik_while.simps [simp del] ik_evaluated.simps [simp del]


text \<open>
  The loop over the batch rows (lines 465-477): row \<open>th_idx\<close> starts from \<open>init_conf\<close>
  when \<open>th_idx = 0\<close> and from \<open>final_conf[th_idx-1]\<close> otherwise; \<open>empty_row\<close> is the
  content of the row of \<^verbatim>\<open>torch.empty\<close> before the loop writes it. The argument
  \<open>targets\<close> holds the rows \<open>(trans[th_idx], rot[th_idx])\<close> still to be processed and
  the result the rows of \<open>final_conf\<close> written for them.
\<close>

fun ik_rows ::
  "ik_ops \<Rightarrow> ik_settings \<Rightarrow> conf \<Rightarrow> (fl list \<times> fl list) list \<Rightarrow> conf \<Rightarrow> error + conf list" where
  "ik_rows ops P empty_row [] curr_conf = Inr []"
| "ik_rows ops P empty_row ((tr, rt) # targets) curr_conf =
     (case euler_from_quaternion ops rt of
        Inl e \<Rightarrow> Inl e
      | Inr eul \<Rightarrow>
          (case ik_while ops P (tr @ eul) 0 curr_conf PInf empty_row of
             Inl e \<Rightarrow> Inl e
           | Inr (min_error, final_row) \<Rightarrow>
               (case ik_rows ops P empty_row targets final_row of
                  Inl e \<Rightarrow> Inl e
                | Inr rest \<Rightarrow> Inr (final_row # rest))))"

text \<open>A one-joint example: the link sits at \<open>(q, 0, 0)\<close> and the update is the position error.\<close>

definition ik_example_ops :: ik_ops where
  "ik_example_ops =
     \<lparr> euler_from_quaternion = (\<lambda>q. Inr [Fin 0, Fin 0, Fin 0]),
       link_pose = (\<lambda>c. case c of [] \<Rightarrow> Inl IndexError
                         | x # _ \<Rightarrow> Inr ([x, Fin 0, Fin 0], [Fin 0, Fin 0, Fin 0, Fin 1])),
       dls_delta = (\<lambda>c d. case d of [] \<Rightarrow> Inl IndexError | x # _ \<Rightarrow> Inr [x]) \<rparr>"

definition ik_example_settings :: ik_settings where
  "ik_example_settings =
     \<lparr> max_num_iter = 1000, min_precision = Fin (1/10), min_convergency_update = Fin (1/1000),
       learning_rate = Fin 1 \<rparr>"

text \<open>
  The method (lines 428-563). It is not decorated with \<^verbatim>\<open>tensor_check\<close>. The first
  \<^verbatim>\<open>assert\<close> checks \<^verbatim>\<open>trans.ndim == 2\<close> only (its second expression is the message). The
  rows of \<^verbatim>\<open>trans\<close> and \<^verbatim>\<open>rot\<close> (\<open>trans_t\<close> and \<open>rot_t\<close>) are read from the heap, and \<open>init_conf\<close> is \<^verbatim>\<open>None\<close> or a
  tensor.
\<close>

definition compute_inverse_kinematics_jac ::
  "robot \<Rightarrow> ik_ops \<Rightarrow> ik_settings \<Rightarrow> conf \<Rightarrow> fl heap \<Rightarrow> tensor \<Rightarrow> tensor \<Rightarrow> tensor option
     \<Rightarrow> error + fl tval" where
  "compute_inverse_kinematics_jac self ops P empty_row h trans_t rot_t init_conf =
     (if length (tshape trans_t) \<noteq> 2 then Inl AssertionError
      else ebind (nth_err (tshape rot_t) 0) (\<lambda>rot_rows.
        if tshape trans_t ! 0 \<noteq> rot_rows then Inl AssertionError
        else if tshape trans_t ! 1 \<noteq> 3 then Inl AssertionError
        else ebind (nth_err (tshape rot_t) 1) (\<lambda>rot_cols.
          if rot_cols \<noteq> 4 then Inl AssertionError
          else (case init_conf of
                  None \<Rightarrow> Inl AssertionError
                | Some ic \<Rightarrow>
                    if tshape ic = [] then Inl TypeError
                    else if hd (tshape ic) \<noteq> n_dofs self then Inl AssertionError
                    else
                      (let batch_size = tshape trans_t ! 0;
                           targets = map (\<lambda>th_idx.
                                       (row_of (h (storage trans_t)) 3 th_idx,
                                        row_of (h (storage rot_t)) (prod_list (tl (tshape rot_t))) th_idx))
                                     [0..<batch_size]
                       in ebind (ik_rows ops P empty_row targets (h (storage ic))) (\<lambda>final_conf.
                            Inr \<lparr>vshape = [batch_size, n_dofs self],
                                 vdata = concat final_conf\<rparr>))))))"

section \<open>Notions used in the statements\<close>

text \<open>
  Two robots with the same joints: the same controlled joints and number of degrees of
  freedom, and link by link the same joint axis and damping constant. The algorithms
  keep them.
\<close>

definition same_joints :: "robot \<Rightarrow> robot \<Rightarrow> bool" where
  "same_joints s s' \<longleftrightarrow>
     controlled_joints s' = controlled_joints s \<and> n_dofs s' = n_dofs s \<and>
     map joint_axis (bodies s') = map joint_axis (bodies s) \<and>
     map joint_damping (bodies s') = map joint_damping (bodies s)"

text \<open>
  A unit joint axis along a coordinate axis: one component is \<open>1\<close> or \<open>-1\<close> and the
  other two are zero.
\<close>

definition axis_aligned :: "vec3 \<Rightarrow> bool" where
  "axis_aligned axis \<longleftrightarrow>
     axis \<in> {(Fin 1, Fin 0, Fin 0), (Fin (- 1), Fin 0, Fin 0),
             (Fin 0, Fin 1, Fin 0), (Fin 0, Fin (- 1), Fin 0),
             (Fin 0, Fin 0, Fin 1), (Fin 0, Fin 0, Fin (- 1))}"

text \<open>A transform all of whose twelve numbers are finite.\<close>

fun finite3 :: "vec3 \<Rightarrow> bool" where
  "finite3 (a, b, c) \<longleftrightarrow> is_finite a \<and> is_finite b \<and> is_finite c"

fun finite_transform :: "CoordinateTransform \<Rightarrow> bool" where
  "finite_transform (CoordinateTransform (r0, r1, r2) t) \<longleftrightarrow>
     finite3 r0 \<and> finite3 r1 \<and> finite3 r2 \<and> finite3 t"

text \<open>The index of the parent of link \<open>i\<close>, through the two name tables.\<close>

definition parent_index :: "robot \<Rightarrow> nat \<Rightarrow> nat option" where
  "parent_index self i =
     (case ebind (get_name_of_parent_body self (name (bodies self ! i)))
             (lookup_err (name_to_idx_map self)) of
        Inr p \<Rightarrow> Some p
      | Inl e \<Rightarrow> None)"

text \<open>
  A robot as \<^verbatim>\<open>__init__\<close> builds it from a description in which the names of the links
  differ and every link but the first has its parent before it: the name table is
  the inverse of the list of names, the first link is the root, and the controlled
  joints are links other than the root, each listed once, at least one.
\<close>

definition proper_tree :: "robot \<Rightarrow> bool" where
  "proper_tree self \<longleftrightarrow>
     bodies self \<noteq> [] \<and>
     distinct (map name (bodies self)) \<and>
     (\<forall>i < length (bodies self). name_to_idx_map self (name (bodies self ! i)) = Some i) \<and>
     (\<forall>nm. nm \<notin> set (map name (bodies self)) \<longrightarrow> name_to_idx_map self nm = None) \<and>
     (\<forall>i. 0 < i \<and> i < length (bodies self) \<longrightarrow> (\<exists>p < i. parent_index self i = Some p)) \<and>
     controlled_joints self \<noteq> [] \<and>
     distinct (controlled_joints self) \<and>
     n_dofs self = length (controlled_joints self) \<and>
     (\<forall>i \<in> set (controlled_joints self). 0 < i \<and> i < length (bodies self))"

text \<open>
  The joint pose of link \<open>i\<close> at the joint positions \<open>q\<close>: of a controlled link the pose
  at its entry of \<open>q\<close>, of another link the stored joint pose.
\<close>

definition joint_pose_for :: "robot \<Rightarrow> fl list \<Rightarrow> nat \<Rightarrow> CoordinateTransform" where
  "joint_pose_for self q i =
     (if i \<in> set (controlled_joints self)
      then joint_pose_at (bodies self ! i) (q ! list_index (controlled_joints self) i)
      else joint_pose (bodies self ! i))"

text \<open>
  The pose of link \<open>i\<close> along its chain of parents: the pose of the parent times the
  joint pose of the link, from the identity above the root.
\<close>

function world_pose :: "robot \<Rightarrow> fl list \<Rightarrow> nat \<Rightarrow> CoordinateTransform" where
  "world_pose self q i =
     multiply_transform
       (case parent_index self i of
          Some p \<Rightarrow> if p < i then world_pose self q p else identity_transform
        | None \<Rightarrow> identity_transform)
       (joint_pose_for self q i)"
  by pat_completeness auto
termination
  by (relation "measure (\<lambda>(self, q, i). i)") auto

declare world_pose.simps [simp del]

text \<open>
  The links at rest as \<^verbatim>\<open>__init__\<close> leaves them: the root has the identity as pose and
  as joint pose, and the stored joint pose of a link without a controlled joint is
  the one \<^verbatim>\<open>update_joint_state\<close> gives it at zero.
\<close>

definition links_at_rest :: "robot \<Rightarrow> bool" where
  "links_at_rest self \<longleftrightarrow>
     pose (bodies self ! 0) = identity_transform \<and>
     joint_pose (bodies self ! 0) = identity_transform \<and>
     (\<forall>i < length (bodies self). i \<notin> set (controlled_joints self) \<longrightarrow>
        joint_pose_at (bodies self ! i) (Fin 0) = joint_pose (bodies self ! i))"

text \<open>
  Two robots with the same links: the same tables and controlled joints, and link by
  link the same name and the same joint model. The kinematic sweep keeps them.
\<close>

definition same_links :: "robot \<Rightarrow> robot \<Rightarrow> bool" where
  "same_links s s' \<longleftrightarrow>
     length (bodies s') = length (bodies s) \<and>
     controlled_joints s' = controlled_joints s \<and>
     name_to_idx_map s' = name_to_idx_map s \<and>
     parent_body_name s' = parent_body_name s \<and>
     (\<forall>i < length (bodies s).
        name (bodies s' ! i) = name (bodies s ! i) \<and>
        joint_pose_at (bodies s' ! i) = joint_pose_at (bodies s ! i))"


section \<open>Verified properties\<close>

subsection \<open>Rewrite sets for evaluating the examples\<close>

lemmas example_defs =
  massless_pendulum_def pendulum_def damped_pendulum_def skew_pendulum_def two_arms_def
  DifferentiableRobotModel_def revolute_link_def fixed_link_def zero_inertia_def point_mass_def
  axis_rotation_def cpu_tensor_def heap_of_def

lemmas raise_defs = ebind_def nth_err_def lookup_err_def modify_body_def
  get_name_of_parent_body_def body_named_def body_index_def Let_def

lemmas algebra_defs =
  inverse_transform_def multiply_transform_def motion_transform_def force_transform_def
  trans_cross_rot_def add_motion_vec_def add_force_vec_def
  zero_motion_def zero_force_def zeros3_def eye3_def identity_transform_def
  x_rot_def y_rot_def z_rot_def
  multiply_motion_vec_def cross_motion_vec_def cross_force_vec_def get_spatial_mat_def
  bmm_vec_def dot6_def fsum_def motion_get_vector_def force_get_vector_def
  motion_dot_force_def force_dot_motion_def
  as_motion_def motion_multiply_def force_multiply_def minus_fl_def

lemmas kinematics_defs =
  update_kinematic_state_def update_joint_state_def update_joint_acc_def kinematic_step_def
  compute_forward_kinematics_def

lemmas aba_defs =
  articulated_body_sweeps_def base_acceleration_def aba_init_step_def aba_backward_step_def
  aba_forward_step_def

lemmas id_defs =
  compute_inverse_dynamics_def iterative_newton_euler_def acceleration_step_def force_step_def
  base_acceleration_def torque_step_def rot_axis_of_def nonzero_indices_def
  damping_step_def damping_constants_def

lemmas wrapper_defs =
  compute_forward_dynamics_def compute_forward_dynamics_body_def tensor_check_def
  preprocess_def postprocess_def index0_def unsqueeze0_def row_of_def apply_damping_def isub_def


lemmas jac_defs = compute_endeffector_jacobian_def compute_endeffector_jacobian_all_links_def
  jacobian_walk.simps jacobian_walk_all.simps jacobian_columns_def jacobian_columns_all_def
  parent_link_def link_positions_def get_link_names_def

subsection \<open>The decorator on one-dimensional tensors\<close>

lemma unsqueeze_arg_simps:
  "unsqueeze_arg (Tensor t) = Tensor (unsqueeze0 t)"
  "unsqueeze_arg (Bool b) = Bool b"
  "unsqueeze_arg (Str s) = Str s"
  "unsqueeze_arg NoneArg = NoneArg"
  by (simp_all add: unsqueeze_arg_def)

lemma is_tensor_simps:
  "is_tensor (Tensor t)" "\<not> is_tensor (Bool b)" "\<not> is_tensor (Str s)" "\<not> is_tensor NoneArg"
  by (simp_all add: is_tensor_def)

lemma preprocess_other:
  "preprocess dev (Bool b) bi = Inr (Bool b, bi)"
  "preprocess dev (Str s) bi = Inr (Str s, bi)"
  "preprocess dev NoneArg bi = Inr (NoneArg, bi)"
  by (simp_all add: preprocess_def)

lemma preprocess_all_rows:
  "list_all (one_row_on dev) args \<Longrightarrow> bshape bi = [] \<Longrightarrow>
   \<exists>bi'. preprocess_all dev args bi = Inr (map unsqueeze_arg args, bi') \<and> bshape bi' = []
      \<and> binit bi' = (binit bi \<or> list_ex is_tensor args)"
proof (induction args arbitrary: bi)
  case Nil
  then show ?case by simp
next
  case (Cons a args)
  show ?case
  proof (cases a)
    case (Tensor t)
    with Cons.prems have t: "tdevice t = dev" "length (tshape t) = 1"
      by (simp_all add: one_row_on_def)
    then have bl: "butlast (tshape t) = []"
      by (cases "tshape t") auto
    define bi1 where "bi1 = (if binit bi then bi else \<lparr>bshape = butlast (tshape t), binit = True\<rparr>)"
    have p: "preprocess dev a bi = Inr (Tensor (unsqueeze0 t), bi1)"
      using t bl Cons.prems(2) by (simp add: preprocess_def Tensor bi1_def Let_def)
    have b1: "bshape bi1 = []" "binit bi1"
      using bl Cons.prems(2) by (auto simp: bi1_def)
    from Cons.prems have "list_all (one_row_on dev) args" by simp
    from Cons.IH[OF this b1(1)] obtain bi' where
      "preprocess_all dev args bi1 = Inr (map unsqueeze_arg args, bi')" "bshape bi' = []"
      "binit bi' = (binit bi1 \<or> list_ex is_tensor args)" by blast
    then show ?thesis using p b1
      by (simp add: Tensor unsqueeze_arg_simps is_tensor_simps)
  next
    case (Bool x)
    from Cons.prems have "list_all (one_row_on dev) args" by simp
    from Cons.IH[OF this Cons.prems(2)] show ?thesis
      by (auto simp: Bool preprocess_other unsqueeze_arg_simps is_tensor_simps)
  next
    case (Str x)
    from Cons.prems have "list_all (one_row_on dev) args" by simp
    from Cons.IH[OF this Cons.prems(2)] show ?thesis
      by (auto simp: Str preprocess_other unsqueeze_arg_simps is_tensor_simps)
  next
    case NoneArg
    from Cons.prems have "list_all (one_row_on dev) args" by simp
    from Cons.IH[OF this Cons.prems(2)] show ?thesis
      by (auto simp: NoneArg preprocess_other unsqueeze_arg_simps is_tensor_simps)
  qed
qed

lemma preprocess_all_batch_of_one:
  "list_all (one_row_on dev) args \<Longrightarrow> (binit bi \<longrightarrow> bshape bi = [1]) \<Longrightarrow>
   \<exists>bi'. preprocess_all dev (map unsqueeze_arg args) bi = Inr (map unsqueeze_arg args, bi')
      \<and> (binit bi' \<longrightarrow> bshape bi' = [1])"
proof (induction args arbitrary: bi)
  case Nil
  then show ?case by simp
next
  case (Cons a args)
  show ?case
  proof (cases a)
    case (Tensor t)
    with Cons.prems have t: "tdevice t = dev" "length (tshape t) = 1"
      by (simp_all add: one_row_on_def)
    then have bl: "butlast (1 # tshape t) = [1]"
      by (cases "tshape t") auto
    define bi1 where "bi1 = (if binit bi then bi else \<lparr>bshape = [1], binit = True\<rparr>)"
    have p: "preprocess dev (Tensor (unsqueeze0 t)) bi = Inr (Tensor (unsqueeze0 t), bi1)"
      using t bl Cons.prems(2) by (auto simp add: preprocess_def bi1_def Let_def unsqueeze0_def)
    have b1: "binit bi1 \<longrightarrow> bshape bi1 = [1]"
      using Cons.prems(2) by (auto simp: bi1_def)
    from Cons.prems have "list_all (one_row_on dev) args" by simp
    from Cons.IH[OF this b1] obtain bi' where
      "preprocess_all dev (map unsqueeze_arg args) bi1 = Inr (map unsqueeze_arg args, bi')"
      "binit bi' \<longrightarrow> bshape bi' = [1]" by blast
    then show ?thesis using p
      by (auto simp add: Tensor unsqueeze_arg_simps)
  next
    case (Bool x)
    from Cons.prems have "list_all (one_row_on dev) args" by simp
    from Cons.IH[OF this Cons.prems(2)] show ?thesis
      by (auto simp: Bool preprocess_other unsqueeze_arg_simps)
  next
    case (Str x)
    from Cons.prems have "list_all (one_row_on dev) args" by simp
    from Cons.IH[OF this Cons.prems(2)] show ?thesis
      by (auto simp: Str preprocess_other unsqueeze_arg_simps)
  next
    case NoneArg
    from Cons.prems have "list_all (one_row_on dev) args" by simp
    from Cons.IH[OF this Cons.prems(2)] show ?thesis
      by (auto simp: NoneArg preprocess_other unsqueeze_arg_simps)
  qed
qed

lemma postprocess_row: "binit bi \<Longrightarrow> bshape bi = [] \<Longrightarrow> postprocess r bi = first_row_tensor r"
  by (simp add: postprocess_def first_row_tensor_def split: ret.splits)

lemma postprocess_all_rows:
  "binit bi \<Longrightarrow> bshape bi = [] \<Longrightarrow> postprocess_all rs bi = first_row_tensors rs"
  by (induction rs) (auto simp add: postprocess_row split: sum.splits)

lemma postprocess_batch: "(binit bi \<longrightarrow> bshape bi = [1]) \<Longrightarrow> postprocess r bi = Inr r"
  by (auto simp add: postprocess_def split: ret.splits)

lemma postprocess_all_batch:
  "(binit bi \<longrightarrow> bshape bi = [1]) \<Longrightarrow> postprocess_all rs bi = Inr rs"
  by (induction rs) (auto simp add: postprocess_batch split: sum.splits)

text \<open>
  Claim C9, as amended. For every method under \<^verbatim>\<open>tensor_check\<close>, a call whose tensor
  arguments all have one dimension and are on the robot's device is accepted by the
  decorator: the method runs on the views of the tensors as batches of one row, and the
  call returns \<^verbatim>\<open>[0, ...]\<close> of the tensor the method returns (of each tensor of a returned
  tuple), which is row 0 of what the call on the batches of one row returns.
\<close>

theorem tensor_check_single_row:
  assumes "list_all (one_row_on dev) args" and "list_ex is_tensor args"
  shows "tensor_check dev function st (map unsqueeze_arg args) = function st (map unsqueeze_arg args)
       \<and> tensor_check dev function st args =
           (case tensor_check dev function st (map unsqueeze_arg args) of
              (st', Inl e) \<Rightarrow> (st', Inl e)
            | (st', Inr r) \<Rightarrow> (st', first_row r))"
proof -
  from preprocess_all_rows[OF assms(1), of "\<lparr>bshape = [], binit = False\<rparr>"] assms(2)
  obtain bi where bi: "preprocess_all dev args \<lparr>bshape = [], binit = False\<rparr>
       = Inr (map unsqueeze_arg args, bi)" "bshape bi = []" "binit bi"
    by auto
  from preprocess_all_batch_of_one[OF assms(1), of "\<lparr>bshape = [], binit = False\<rparr>"]
  obtain bi2 where bi2: "preprocess_all dev (map unsqueeze_arg args) \<lparr>bshape = [], binit = False\<rparr>
       = Inr (map unsqueeze_arg args, bi2)" "binit bi2 \<longrightarrow> bshape bi2 = [1]"
    by auto
  have batch: "tensor_check dev function st (map unsqueeze_arg args)
                 = function st (map unsqueeze_arg args)"
    using bi2 by (auto simp add: tensor_check_def postprocess_batch postprocess_all_batch
        split: prod.splits sum.splits ret.splits)
  have row: "tensor_check dev function st args =
           (case function st (map unsqueeze_arg args) of
              (st', Inl e) \<Rightarrow> (st', Inl e)
            | (st', Inr r) \<Rightarrow> (st', first_row r))"
    using bi by (auto simp add: tensor_check_def postprocess_row postprocess_all_rows first_row_def
        split: prod.splits sum.splits ret.splits)
  show ?thesis using batch row by simp
qed

theorem tensor_check_single_row_witness:
  "list_all (one_row_on ''cpu'')
     [Tensor (cpu_tensor 0 [1]), Tensor (cpu_tensor 1 [1]), Tensor (cpu_tensor 2 [1]),
      Bool True, Bool False]
   \<and> list_ex is_tensor
     [Tensor (cpu_tensor 0 [1]), Tensor (cpu_tensor 1 [1]), Tensor (cpu_tensor 2 [1]),
      Bool True, Bool False]
   \<and> snd (tensor_check ''cpu'' (compute_forward_dynamics_body pendulum)
            (heap_of [[Fin 0], [Fin 0], [Fin 1]])
            (map unsqueeze_arg
               [Tensor (cpu_tensor 0 [1]), Tensor (cpu_tensor 1 [1]), Tensor (cpu_tensor 2 [1]),
                Bool True, Bool False]))
       = Inr (RTensor \<lparr>vshape = [1, 1], vdata = [Fin 1]\<rparr>)
   \<and> snd (tensor_check ''cpu'' (compute_forward_dynamics_body pendulum)
            (heap_of [[Fin 0], [Fin 0], [Fin 1]])
            [Tensor (cpu_tensor 0 [1]), Tensor (cpu_tensor 1 [1]), Tensor (cpu_tensor 2 [1]),
             Bool True, Bool False])
       = Inr (RTensor \<lparr>vshape = [1], vdata = [Fin 1]\<rparr>)"
proof -
  let ?args = "[Tensor (cpu_tensor 0 [1]), Tensor (cpu_tensor 1 [1]), Tensor (cpu_tensor 2 [1]),
                Bool True, Bool False]"
  let ?h = "heap_of [[Fin 0], [Fin 0], [Fin 1]]"
  have h1: "list_all (one_row_on ''cpu'') ?args"
    by (simp add: one_row_on_def cpu_tensor_def)
  have h2: "list_ex is_tensor ?args"
    by (simp add: is_tensor_def)
  have batch: "snd (tensor_check ''cpu'' (compute_forward_dynamics_body pendulum) ?h
                 (map unsqueeze_arg ?args))
               = Inr (RTensor \<lparr>vshape = [1, 1], vdata = [Fin 1]\<rparr>)"
    by (simp add: unsqueeze_arg_def example_defs raise_defs algebra_defs kinematics_defs aba_defs
          wrapper_defs)
  from tensor_check_single_row[OF h1 h2, of "compute_forward_dynamics_body pendulum" ?h] batch
  have "snd (tensor_check ''cpu'' (compute_forward_dynamics_body pendulum) ?h ?args)
          = Inr (RTensor \<lparr>vshape = [1], vdata = [Fin 1]\<rparr>)"
    by (auto simp: first_row_def first_row_tensor_def index0_def split: prod.splits sum.splits)
  with h1 h2 batch show ?thesis by blast
qed

text \<open>
  Claim C9 as stated fails for \<^verbatim>\<open>compute_inverse_kinematics_jac\<close>: the method is not
  decorated, and its first \<^verbatim>\<open>assert\<close> rejects a one-dimensional \<^verbatim>\<open>trans\<close>. The same target
  as a batch of one row is solved.
\<close>

theorem inverse_kinematics_jac_rejects_single_row:
  "compute_inverse_kinematics_jac pendulum ik_example_ops ik_example_settings [Fin 7]
     (heap_of [[Fin 1, Fin 0, Fin 0], [Fin 0, Fin 0, Fin 0, Fin 1], [Fin 0]])
     (cpu_tensor 0 [3]) (cpu_tensor 1 [4]) (Some (cpu_tensor 2 [1])) = Inl AssertionError
   \<and> compute_inverse_kinematics_jac pendulum ik_example_ops ik_example_settings [Fin 7]
     (heap_of [[Fin 1, Fin 0, Fin 0], [Fin 0, Fin 0, Fin 0, Fin 1], [Fin 0]])
     (cpu_tensor 0 [1, 3]) (cpu_tensor 1 [1, 4]) (Some (cpu_tensor 2 [1]))
       = Inr \<lparr>vshape = [1, 1], vdata = [Fin 1]\<rparr>"
  by (simp add: compute_inverse_kinematics_jac_def cpu_tensor_def heap_of_def raise_defs row_of_def
      pendulum_def DifferentiableRobotModel_def below_min_error_def fsum_def minus_fl_def
      ik_while.simps ik_example_ops_def ik_example_settings_def curr_pose_of_def norm2_def)

subsection \<open>What the sweeps leave unchanged\<close>

lemma ebind_Inr: "ebind m k = Inr y \<longleftrightarrow> (\<exists>x. m = Inr x \<and> k x = Inr y)"
  by (cases m) (simp_all add: ebind_def)

lemma nth_err_Inr: "nth_err xs i = Inr x \<longleftrightarrow> i < length xs \<and> x = xs ! i"
  by (auto simp: nth_err_def)

lemma same_joints_refl: "same_joints s s"
  by (simp add: same_joints_def)

lemma same_joints_trans: "same_joints s s' \<Longrightarrow> same_joints s' s'' \<Longrightarrow> same_joints s s''"
  by (simp add: same_joints_def)

lemma modify_body_same_joints:
  assumes "modify_body i f s = Inr s'"
      and "joint_axis (f (bodies s ! i)) = joint_axis (bodies s ! i)"
      and "joint_damping (f (bodies s ! i)) = joint_damping (bodies s ! i)"
  shows "same_joints s s'"
  using assms
  by (auto simp: modify_body_def same_joints_def map_update list_update_same_conv split: if_splits)

lemma efold_same_joints:
  assumes "\<And>x s s'. step x s = Inr s' \<Longrightarrow> same_joints s s'"
  shows "efold step xs s = Inr s' \<Longrightarrow> same_joints s s'"
proof (induction xs arbitrary: s)
  case Nil
  then show ?case by (simp add: same_joints_refl)
next
  case (Cons x xs)
  then show ?case
    by (auto split: sum.splits intro: same_joints_trans assms)
qed

lemma kinematic_step_same_joints: "kinematic_step i s = Inr s' \<Longrightarrow> same_joints s s'"
  by (auto simp: kinematic_step_def ebind_Inr Let_def intro!: modify_body_same_joints)

lemma update_kinematic_state_same_joints:
  assumes "update_kinematic_state s q qd = Inr s'"
  shows "same_joints s s'"
proof -
  from assms obtain c0 s1 s2 s3 where
    s1: "efold (\<lambda>i. modify_body i (\<lambda>b. update_joint_state b (Fin 0) (Fin 0))) [0..<c0] s = Inr s1"
    and s2: "efold (\<lambda>i s. ebind (nth_err (controlled_joints s) i) (\<lambda>idx.
                 modify_body idx (\<lambda>b. update_joint_state b (q ! i) (qd ! i)) s)) [0..<length q] s1 = Inr s2"
    and s3: "modify_body 0 (\<lambda>b. b\<lparr>vel := zero_motion\<rparr>) s2 = Inr s3"
    and s4: "efold kinematic_step [1..<length (bodies s3)] s3 = Inr s'"
    by (auto simp: update_kinematic_state_def ebind_Inr split: if_splits)
  have a: "same_joints s s1"
    by (rule efold_same_joints[OF _ s1])
       (auto simp: update_joint_state_def intro!: modify_body_same_joints)
  have b: "same_joints s1 s2"
    by (rule efold_same_joints[OF _ s2])
       (auto simp: update_joint_state_def ebind_Inr intro!: modify_body_same_joints)
  have c: "same_joints s2 s3"
    using s3 by (auto intro!: modify_body_same_joints)
  have d: "same_joints s3 s'"
    by (rule efold_same_joints[OF _ s4]) (rule kinematic_step_same_joints)
  from a b c d show ?thesis by (blast intro: same_joints_trans)
qed

lemma acceleration_step_same_joints: "acceleration_step i s = Inr s' \<Longrightarrow> same_joints s s'"
  by (auto simp: acceleration_step_def ebind_Inr Let_def intro!: modify_body_same_joints)

lemma force_step_same_joints:
  assumes "force_step i s = Inr s'"
  shows "same_joints s s'"
proof -
  from assms obtain s1 p f g where
    a: "modify_body i f s = Inr s1" "joint_axis (f (bodies s ! i)) = joint_axis (bodies s ! i)"
       "joint_damping (f (bodies s ! i)) = joint_damping (bodies s ! i)"
    and b: "modify_body p g s1 = Inr s'" "joint_axis (g (bodies s1 ! p)) = joint_axis (bodies s1 ! p)"
       "joint_damping (g (bodies s1 ! p)) = joint_damping (bodies s1 ! p)"
    by (auto simp: force_step_def ebind_Inr Let_def)
  from modify_body_same_joints[OF a] modify_body_same_joints[OF b] show ?thesis
    by (rule same_joints_trans)
qed

lemma iterative_newton_euler_same_joints:
  assumes "iterative_newton_euler s base_acc = Inr s'"
  shows "same_joints s s'"
proof -
  from assms obtain s1 s2 s3 where
    s1: "modify_body 0 (\<lambda>b. b\<lparr>acc := base_acc\<rparr>) s = Inr s1"
    and s2: "efold acceleration_step [1..<length (bodies s1)] s1 = Inr s2"
    and s3: "efold (\<lambda>i. modify_body i (\<lambda>b. b\<lparr>force := zero_force\<rparr>)) [0..<length (bodies s2)] s2 = Inr s3"
    and s4: "efold force_step (rev [1..<length (bodies s3)]) s3 = Inr s'"
    by (auto simp: iterative_newton_euler_def ebind_Inr)
  have a: "same_joints s s1" using s1 by (auto intro!: modify_body_same_joints)
  have b: "same_joints s1 s2"
    by (rule efold_same_joints[OF _ s2]) (rule acceleration_step_same_joints)
  have c: "same_joints s2 s3"
    by (rule efold_same_joints[OF _ s3]) (auto intro!: modify_body_same_joints)
  have d: "same_joints s3 s'"
    by (rule efold_same_joints[OF _ s4]) (rule force_step_same_joints)
  from a b c d show ?thesis by (blast intro: same_joints_trans)
qed

lemma fl_zero_add: "Fin 0 + x = x"
  by (cases x) simp_all

lemma rot_axis_of_aligned: "axis_aligned axis \<Longrightarrow> rot_axis_of axis = Inr axis"
  by (auto simp: axis_aligned_def rot_axis_of_def nonzero_indices_def zeros3_def Let_def)

lemma torque_loop:
  assumes "efold (torque_step s) is frc0 = Inr frc" and "distinct is"
  shows "length frc = length frc0
       \<and> (\<forall>i. i \<notin> set is \<longrightarrow> frc ! i = frc0 ! i)
       \<and> (\<forall>i \<in> set is. i < length frc0 \<longrightarrow>
             (case rot_axis_of (joint_axis (bodies s ! (controlled_joints s ! i))) of
                Inl e \<Rightarrow> False
              | Inr r \<Rightarrow> frc ! i = frc0 ! i
                          + vdot (fang (force (bodies s ! (controlled_joints s ! i)))) r))"
  using assms
proof (induction "is" arbitrary: frc0)
  case Nil
  then show ?case by simp
next
  case (Cons j js)
  from Cons.prems(1) obtain frc1 where
    hd: "torque_step s j frc0 = Inr frc1" and tl: "efold (torque_step s) js frc1 = Inr frc"
    by (auto split: sum.splits)
  from hd obtain r where
    r: "rot_axis_of (joint_axis (bodies s ! (controlled_joints s ! j))) = Inr r"
    and frc1: "frc1 = frc0[j := frc0 ! j + vdot (fang (force (bodies s ! (controlled_joints s ! j)))) r]"
    by (auto simp: torque_step_def ebind_Inr nth_err_Inr)
  from Cons.prems(2) have d: "distinct js" "j \<notin> set js" by auto
  note IH = Cons.IH[OF tl d(1)]
  have l1: "length frc1 = length frc0" by (simp add: frc1)
  have p1: "length frc = length frc0" using IH l1 by simp
  have p2: "\<forall>i. i \<notin> set (j # js) \<longrightarrow> frc ! i = frc0 ! i"
    using IH by (simp add: frc1)
  have p3: "\<forall>i \<in> set (j # js). i < length frc0 \<longrightarrow>
             (case rot_axis_of (joint_axis (bodies s ! (controlled_joints s ! i))) of
                Inl e \<Rightarrow> False
              | Inr r \<Rightarrow> frc ! i = frc0 ! i
                          + vdot (fang (force (bodies s ! (controlled_joints s ! i)))) r)"
  proof (intro ballI impI)
    fix i assume i: "i \<in> set (j # js)" "i < length frc0"
    show "case rot_axis_of (joint_axis (bodies s ! (controlled_joints s ! i))) of
                Inl e \<Rightarrow> False
              | Inr r \<Rightarrow> frc ! i = frc0 ! i
                          + vdot (fang (force (bodies s ! (controlled_joints s ! i)))) r"
    proof (cases "i = j")
      case True
      with IH d(2) have "frc ! i = frc1 ! j" by simp
      with i True show ?thesis by (simp add: r frc1)
    next
      case False
      with i have "i \<in> set js" by simp
      with IH i l1 have "case rot_axis_of (joint_axis (bodies s ! (controlled_joints s ! i))) of
                Inl e \<Rightarrow> False
              | Inr r \<Rightarrow> frc ! i = frc1 ! i
                          + vdot (fang (force (bodies s ! (controlled_joints s ! i)))) r"
        by simp
      moreover have "frc1 ! i = frc0 ! i" using False by (simp add: frc1)
      ultimately show ?thesis by (simp split: sum.splits)
    qed
  qed
  from p1 p2 p3 show ?case by blast
qed

lemma damping_loop:
  assumes "efold (damping_step s) is dc0 = Inr dc" and "distinct is"
  shows "length dc = length dc0
       \<and> (\<forall>i. i \<notin> set is \<longrightarrow> dc ! i = dc0 ! i)
       \<and> (\<forall>i \<in> set is. i < length dc0 \<longrightarrow>
             dc ! i = joint_damping (bodies s ! (controlled_joints s ! i)))"
  using assms
proof (induction "is" arbitrary: dc0)
  case Nil
  then show ?case by simp
next
  case (Cons j js)
  from Cons.prems(1) obtain dc1 where
    hd: "damping_step s j dc0 = Inr dc1" and tl: "efold (damping_step s) js dc1 = Inr dc"
    by (auto split: sum.splits)
  from hd have "dc1 = dc0[j := joint_damping (bodies s ! (controlled_joints s ! j))]"
    by (auto simp: damping_step_def ebind_Inr nth_err_Inr)
  with tl have
    rest: "efold (damping_step s) js
                 (dc0[j := joint_damping (bodies s ! (controlled_joints s ! j))]) = Inr dc"
    by simp
  from Cons.prems(2) have d: "distinct js" "j \<notin> set js" by auto
  from Cons.IH[OF rest d(1)] d(2) show ?case
    by (auto simp: nth_list_update)
qed

lemma damping_constants_nth:
  assumes "damping_constants s = Inr dc"
  shows "length dc = n_dofs s"
    and "i < n_dofs s \<Longrightarrow> dc ! i = joint_damping (bodies s ! (controlled_joints s ! i))"
  using damping_loop[OF assms[unfolded damping_constants_def]] by auto

lemma same_joints_axis:
  "same_joints s s' \<Longrightarrow> idx < length (bodies s) \<Longrightarrow>
     joint_axis (bodies s' ! idx) = joint_axis (bodies s ! idx)
   \<and> joint_damping (bodies s' ! idx) = joint_damping (bodies s ! idx)"
  unfolding same_joints_def
  by (metis length_map nth_map)

text \<open>
  For a controlled joint whose axis is a unit vector along a coordinate axis,
  \<^verbatim>\<open>compute_inverse_dynamics\<close> returns the projection the extraction loop of lines 366-379
  aims at: the dot product of the angular part of its link's accumulated force after
  the backward sweep with the joint axis, plus the damping constant times the joint
  velocity when \<^verbatim>\<open>use_damping\<close> is set.
\<close>

lemma inverse_dynamics_torque:
  assumes ret: "compute_inverse_dynamics self q qd qdd_des include_gravity use_damping = Inr (s, frc)"
      and i: "i < n_dofs self"
      and idx: "idx = controlled_joints self ! i" "idx < length (bodies self)"
      and ax: "axis_aligned (joint_axis (bodies self ! idx))"
  shows "frc ! i =
           (if use_damping
            then vdot (fang (force (bodies s ! idx))) (joint_axis (bodies self ! idx))
                   + joint_damping (bodies self ! idx) * qd ! i
            else vdot (fang (force (bodies s ! idx))) (joint_axis (bodies self ! idx)))"
proof -
  from ret have len: "length q = n_dofs self" "length qd = n_dofs self" "length qdd_des = n_dofs self"
    by (auto simp: compute_inverse_dynamics_def split: if_splits)
  from ret len obtain s1 s2 frc0 where
    s1: "update_kinematic_state self q qd = Inr s1"
    and s2: "efold (\<lambda>i s. ebind (nth_err (controlled_joints s) i) (\<lambda>idx.
                 modify_body idx (\<lambda>b. update_joint_acc b (qdd_des ! i)) s)) [0..<n_dofs s1] s1 = Inr s2"
    and s3: "iterative_newton_euler s2 (base_acceleration include_gravity) = Inr s"
    and f0: "efold (torque_step s) [0..<length qdd_des] (map (\<lambda>x. Fin 0) qdd_des) = Inr frc0"
    and fin: "(if use_damping
               then ebind (damping_constants s) (\<lambda>dc. Inr (s, map2 (+) frc0 (map2 (*) dc qd)))
               else Inr (s, frc0)) = Inr (s, frc)"
    by (auto simp: compute_inverse_dynamics_def ebind_Inr split: if_splits)
  have a: "same_joints self s1" by (rule update_kinematic_state_same_joints[OF s1])
  have b: "same_joints s1 s2"
    by (rule efold_same_joints[OF _ s2])
       (auto simp: update_joint_acc_def ebind_Inr intro!: modify_body_same_joints)
  have c: "same_joints s2 s" by (rule iterative_newton_euler_same_joints[OF s3])
  from a b c have sj: "same_joints self s" by (blast intro: same_joints_trans)
  then have cj: "controlled_joints s = controlled_joints self" "n_dofs s = n_dofs self"
    by (simp_all add: same_joints_def)
  from same_joints_axis[OF sj idx(2)] have axs: "joint_axis (bodies s ! idx) = joint_axis (bodies self ! idx)"
    and dmp: "joint_damping (bodies s ! idx) = joint_damping (bodies self ! idx)" by simp_all
  from torque_loop[OF f0] i len
  have lf: "length frc0 = n_dofs self"
    and "case rot_axis_of (joint_axis (bodies s ! (controlled_joints s ! i))) of
           Inl e \<Rightarrow> False
         | Inr r \<Rightarrow> frc0 ! i = Fin 0 + vdot (fang (force (bodies s ! (controlled_joints s ! i)))) r"
    by (auto split: sum.splits)
  with ax have t: "frc0 ! i = vdot (fang (force (bodies s ! idx))) (joint_axis (bodies self ! idx))"
    by (auto simp: cj idx(1)[symmetric] axs rot_axis_of_aligned fl_zero_add)
  show ?thesis
  proof (cases use_damping)
    case False
    with fin t show ?thesis by simp
  next
    case True
    with fin obtain dc where dc: "damping_constants s = Inr dc"
      and frc: "frc = map2 (+) frc0 (map2 (*) dc qd)"
      by (auto simp: ebind_Inr)
    from damping_constants_nth[OF dc] i cj
    have "length dc = n_dofs self" "dc ! i = joint_damping (bodies s ! idx)"
      by (simp_all add: idx(1))
    with frc lf len i t dmp True show ?thesis by simp
  qed
qed

lemma inverse_dynamics_torque_pendulum:
  "\<exists>s frc. compute_inverse_dynamics pendulum [Fin 0] [Fin 0] [Fin 1] True False = Inr (s, frc)
      \<and> (0::nat) < n_dofs pendulum
      \<and> (1::nat) = controlled_joints pendulum ! 0
      \<and> (1::nat) < length (bodies pendulum)
      \<and> axis_aligned (joint_axis (bodies pendulum ! 1))
      \<and> frc = [Fin 1]
      \<and> frc ! 0 = vdot (fang (force (bodies s ! 1))) (joint_axis (bodies pendulum ! 1))"
proof -
  have "map_sum id snd (compute_inverse_dynamics pendulum [Fin 0] [Fin 0] [Fin 1] True False)
          = Inr [Fin 1]"
    by (simp add: example_defs raise_defs algebra_defs kinematics_defs id_defs)
  then obtain s frc where
    r: "compute_inverse_dynamics pendulum [Fin 0] [Fin 0] [Fin 1] True False = Inr (s, frc)"
    and f: "frc = [Fin 1]"
    by (cases "compute_inverse_dynamics pendulum [Fin 0] [Fin 0] [Fin 1] True False") auto
  have h: "(0::nat) < n_dofs pendulum" "(1::nat) = controlled_joints pendulum ! 0"
          "(1::nat) < length (bodies pendulum)" "axis_aligned (joint_axis (bodies pendulum ! 1))"
    by (simp_all add: example_defs axis_aligned_def)
  from inverse_dynamics_torque[OF r h] r f h show ?thesis by auto
qed

text \<open>
  Claim C3. For the unit joint axis \<open>(0.6, 0.8, 0)\<close>, which is not along a coordinate axis,
  \<^verbatim>\<open>compute_inverse_dynamics\<close> returns no torque: \<^verbatim>\<open>int(torch.where(axis)[0])\<close> of line 371
  raises on the two non-zero components. Forward dynamics (line 812) takes the same
  axis as a vector and returns an acceleration for the same robot.
\<close>

theorem inverse_dynamics_raises_on_skew_axis:
  "compute_inverse_dynamics skew_pendulum [Fin 0] [Fin 0] [Fin 0] True False = Inl ValueError
   \<and> snd (compute_forward_dynamics skew_pendulum (heap_of [[Fin 0], [Fin 0], [Fin 0]])
          [Tensor (cpu_tensor 0 [1, 1]), Tensor (cpu_tensor 1 [1, 1]), Tensor (cpu_tensor 2 [1, 1]),
           Bool False, Bool False])
     = Inr (RTensor \<lparr>vshape = [1, 1], vdata = [Fin 0]\<rparr>)"
  by (simp add: example_defs raise_defs algebra_defs kinematics_defs id_defs aba_defs wrapper_defs)

subsection \<open>The heap after forward dynamics\<close>

lemma tensor_check_Inr:
  assumes "tensor_check dev function st args = (st', Inr r)"
  shows "\<exists>pargs bi r0. preprocess_all dev args \<lparr>bshape = [], binit = False\<rparr> = Inr (pargs, bi)
           \<and> function st pargs = (st', Inr r0)"
  using assms by (auto simp: tensor_check_def split: sum.splits prod.splits)

lemma tensor_check_state:
  "fst (tensor_check dev function st args) =
     (case preprocess_all dev args \<lparr>bshape = [], binit = False\<rparr> of
        Inl e \<Rightarrow> st
      | Inr (pargs, bi) \<Rightarrow> fst (function st pargs))"
  by (auto simp: tensor_check_def split: sum.splits prod.splits)

lemma preprocess_Tensor:
  assumes "preprocess dev (Tensor t) bi = Inr (a, bi')"
  shows "\<exists>t'. a = Tensor t' \<and> storage t' = storage t \<and> binit bi' \<and>
           bshape bi' = butlast (tshape t) \<and> (binit bi \<longrightarrow> bi' = bi) \<and>
           tshape t' = (if length (tshape t) = 1 then 1 # tshape t else tshape t)"
  using assms
  by (cases "tshape t"; cases "tl (tshape t)")
     (auto simp: preprocess_def Let_def unsqueeze0_def split: if_splits)

lemma preprocess_fd_args:
  assumes "preprocess_all dev [Tensor q, Tensor qd, Tensor f, Bool g, Bool d]
             \<lparr>bshape = [], binit = False\<rparr> = Inr (pargs, bi)"
  shows "\<exists>q' qd' f'. pargs = [Tensor q', Tensor qd', Tensor f', Bool g, Bool d]
           \<and> storage q' = storage q \<and> storage qd' = storage qd \<and> storage f' = storage f
           \<and> butlast (tshape qd) = butlast (tshape f)
           \<and> butlast (tshape q) = butlast (tshape qd)
           \<and> tshape q' = (if length (tshape q) = 1 then 1 # tshape q else tshape q)
           \<and> tshape qd' = (if length (tshape qd) = 1 then 1 # tshape qd else tshape qd)
           \<and> tshape f' = (if length (tshape f) = 1 then 1 # tshape f else tshape f)"
proof -
  from assms obtain a1 b1 a2 b2 a3 b3 where
    p1: "preprocess dev (Tensor q) \<lparr>bshape = [], binit = False\<rparr> = Inr (a1, b1)"
    and p2: "preprocess dev (Tensor qd) b1 = Inr (a2, b2)"
    and p3: "preprocess dev (Tensor f) b2 = Inr (a3, b3)"
    and pa: "pargs = [a1, a2, a3, Bool g, Bool d]"
    by (auto simp: preprocess_def[of dev "Bool g"] preprocess_def[of dev "Bool d"]
             split: sum.splits prod.splits)
  from preprocess_Tensor[OF p1] preprocess_Tensor[OF p2] preprocess_Tensor[OF p3] pa
  show ?thesis by auto
qed

lemma fd_body_no_damping:
  "fst (compute_forward_dynamics_body self h [Tensor q, Tensor qd, Tensor f, Bool g, Bool False]) = h"
  by (simp add: compute_forward_dynamics_body_def Let_def)

lemma fd_body_damping:
  assumes "compute_forward_dynamics_body self h [Tensor q, Tensor qd, Tensor f, Bool g, Bool True]
             = (h', Inr r)"
  shows "\<exists>dc fdata. damping_constants self = Inr dc
           \<and> tshape qd ! 1 = n_dofs self \<and> length (tshape qd) = 2 \<and> length (tshape f) = 2
           \<and> length (tshape q) = 2
           \<and> isub (tshape f ! 1) (n_dofs self) (h (storage f))
                (map2 (*) (concat (replicate (tshape q ! 0) dc)) (h (storage qd))) = Inr fdata
           \<and> h' = h(storage f := fdata)"
  using assms
  by (auto simp: compute_forward_dynamics_body_def Let_def apply_damping_def ebind_Inr
           split: if_splits sum.splits)

lemma nth_concat_replicate:
  "k < B * length xs \<Longrightarrow> concat (replicate B xs) ! k = xs ! (k mod length xs)"
proof (induction B arbitrary: k)
  case 0
  then show ?case by simp
next
  case (Suc B)
  show ?case
  proof (cases "k < length xs")
    case True
    then show ?thesis by (simp add: nth_append)
  next
    case False
    with Suc.prems have "k - length xs < B * length xs" by simp
    from Suc.IH[OF this] False show ?thesis
      by (simp add: nth_append le_mod_geq)
  qed
qed

text \<open>
  Claim C10. A call of \<^verbatim>\<open>compute_forward_dynamics\<close> with \<^verbatim>\<open>use_damping=False\<close> leaves the
  heap, and so the caller's \<open>f\<close>, as it was. When a call with \<^verbatim>\<open>use_damping=True\<close>
  returns, for an \<open>f\<close> with \<open>n_dofs\<close> columns (one row, or a batch of rows), the
  storage of the caller's \<open>f\<close> holds each force minus the damping constant of its
  joint times the joint velocity, and no other storage has changed.
\<close>

theorem forward_dynamics_damps_in_place:
  "fst (compute_forward_dynamics self h
          [Tensor q, Tensor qd, Tensor f, Bool include_gravity, Bool False]) = h
   \<and> (compute_forward_dynamics self h
          [Tensor q, Tensor qd, Tensor f, Bool include_gravity, Bool True] = (h', Inr r)
        \<longrightarrow> last (tshape f) = n_dofs self
        \<longrightarrow> length (h (storage f)) = prod_list (tshape f)
        \<longrightarrow> length (h (storage qd)) = prod_list (tshape qd)
        \<longrightarrow> (\<forall>p. p \<noteq> storage f \<longrightarrow> h' p = h p)
            \<and> length (h' (storage f)) = length (h (storage f))
            \<and> (\<forall>k < length (h (storage f)).
                  h' (storage f) ! k =
                    h (storage f) ! k
                      - joint_damping (bodies self ! (controlled_joints self ! (k mod n_dofs self)))
                          * h (storage qd) ! k))"
proof (intro conjI impI)
  show "fst (compute_forward_dynamics self h
          [Tensor q, Tensor qd, Tensor f, Bool include_gravity, Bool False]) = h"
  proof (cases "preprocess_all (device self)
                  [Tensor q, Tensor qd, Tensor f, Bool include_gravity, Bool False]
                  \<lparr>bshape = [], binit = False\<rparr>")
    case (Inl e)
    then show ?thesis
      by (simp add: compute_forward_dynamics_def tensor_check_state del: preprocess_all.simps)
  next
    case (Inr pb)
    obtain pargs bi where pb: "pb = (pargs, bi)" by (cases pb)
    from preprocess_fd_args[OF Inr[unfolded pb]] obtain q' qd' f' where
      "pargs = [Tensor q', Tensor qd', Tensor f', Bool include_gravity, Bool False]" by blast
    with Inr pb show ?thesis
      by (simp add: compute_forward_dynamics_def tensor_check_state fd_body_no_damping
            del: preprocess_all.simps)
  qed
next
  assume call: "compute_forward_dynamics self h
          [Tensor q, Tensor qd, Tensor f, Bool include_gravity, Bool True] = (h', Inr r)"
    and lf: "last (tshape f) = n_dofs self"
    and hf: "length (h (storage f)) = prod_list (tshape f)"
    and hqd: "length (h (storage qd)) = prod_list (tshape qd)"
  from tensor_check_Inr[OF call[unfolded compute_forward_dynamics_def]]
  obtain pargs bi r0 where
    pre: "preprocess_all (device self) [Tensor q, Tensor qd, Tensor f, Bool include_gravity, Bool True]
            \<lparr>bshape = [], binit = False\<rparr> = Inr (pargs, bi)"
    and body: "compute_forward_dynamics_body self h pargs = (h', Inr r0)" by blast
  from preprocess_fd_args[OF pre] obtain q' qd' f' where
    pa: "pargs = [Tensor q', Tensor qd', Tensor f', Bool include_gravity, Bool True]"
    and st: "storage qd' = storage qd" "storage f' = storage f"
    and bl: "butlast (tshape qd) = butlast (tshape f)" "butlast (tshape q) = butlast (tshape qd)"
    and sq: "tshape q' = (if length (tshape q) = 1 then 1 # tshape q else tshape q)"
    and sqd: "tshape qd' = (if length (tshape qd) = 1 then 1 # tshape qd else tshape qd)"
    and sf: "tshape f' = (if length (tshape f) = 1 then 1 # tshape f else tshape f)"
    by blast
  from fd_body_damping[OF body[unfolded pa]] st obtain dc fdata where
    dc: "damping_constants self = Inr dc"
    and n: "tshape qd' ! 1 = n_dofs self" "length (tshape qd') = 2" "length (tshape f') = 2"
           "length (tshape q') = 2"
    and isub: "isub (tshape f' ! 1) (n_dofs self) (h (storage f))
                (map2 (*) (concat (replicate (tshape q' ! 0) dc)) (h (storage qd))) = Inr fdata"
    and h': "h' = h(storage f := fdata)"
    by auto
  show "\<forall>p. p \<noteq> storage f \<longrightarrow> h' p = h p" by (simp add: h')
  define n where "n = n_dofs self"
  define B where "B = tshape q' ! 0"
  have two: "\<And>xs::nat list. length xs = 2 \<Longrightarrow> xs = [xs ! 0, xs ! 1]"
    by (metis One_nat_def Suc_1 length_0_conv length_Suc_conv nth_Cons_0 nth_Cons_Suc)
  have one: "\<And>xs::nat list. length xs = 1 \<Longrightarrow> xs = [xs ! 0]"
    by (metis One_nat_def length_0_conv length_Suc_conv nth_Cons_0)
  have qd_ne: "tshape qd \<noteq> []" and f_ne: "tshape f \<noteq> []" and q_ne: "tshape q \<noteq> []"
    using n sqd sf sq by (auto split: if_splits)
  have last_qd: "last (tshape qd) = n"
    using n(1,2) sqd two[of "tshape qd"] one[of "tshape qd"]
    by (auto simp: n_def split: if_splits) (metis last.simps list.distinct(1))+
  have eq: "tshape qd = tshape f"
    using bl(1) last_qd lf qd_ne f_ne unfolding n_def
    by (metis append_butlast_last_id)
  have "tshape f' = tshape qd'" by (simp only: sqd sf eq)
  then have f1: "tshape f' ! 1 = n"
    by (simp only: n(1) n_def)
  have "length (butlast (tshape q)) = length (butlast (tshape qd))" by (simp only: bl(2))
  then have "length (tshape q) - 1 = length (tshape qd) - 1" by (simp only: length_butlast)
  then have leq: "length (tshape q) = length (tshape qd)"
    using q_ne qd_ne by (cases "tshape q"; cases "tshape qd") simp_all
  have bq: "butlast (tshape q') = butlast (tshape qd')"
    using bl(2) sq sqd q_ne qd_ne leq
    by (auto split: if_splits)
  have Bqd: "tshape qd' = [B, n]"
    using two[OF n(2)] two[OF n(4)] bq n(1)
    by (metis B_def butlast.simps(2) list.distinct(1) list.inject n_def)
  have prod: "prod_list (tshape qd) = B * n"
    using Bqd sqd by (auto split: if_splits)
  have lqd: "length (h (storage qd)) = B * n" using hqd prod by simp
  have lfd: "length (h (storage f)) = B * n" using hf prod eq by simp
  from damping_constants_nth[OF dc] have ldc: "length dc = n"
    and dcn: "\<And>i. i < n \<Longrightarrow> dc ! i = joint_damping (bodies self ! (controlled_joints self ! i))"
    by (simp_all add: n_def)
  have fdata: "fdata = map2 (-) (h (storage f))
                 (map2 (*) (concat (replicate B dc)) (h (storage qd)))"
    using isub f1 by (simp add: isub_def n_def B_def)
  have lc: "length (concat (replicate B dc)) = B * n"
    by (induction B) (simp_all add: ldc)
  show "length (h' (storage f)) = length (h (storage f))"
    by (simp add: h' fdata lc lqd lfd)
  show "\<forall>k < length (h (storage f)).
                  h' (storage f) ! k =
                    h (storage f) ! k
                      - joint_damping (bodies self ! (controlled_joints self ! (k mod n_dofs self)))
                          * h (storage qd) ! k"
  proof (intro allI impI)
    fix k assume k: "k < length (h (storage f))"
    then have kB: "k < B * n" by (simp add: lfd)
    then have npos: "0 < n" by (cases n) auto
    have "concat (replicate B dc) ! k = dc ! (k mod n)"
      using nth_concat_replicate[of k B dc] kB by (simp add: ldc)
    also have "\<dots> = joint_damping (bodies self ! (controlled_joints self ! (k mod n)))"
      using dcn npos by simp
    finally show "h' (storage f) ! k =
                    h (storage f) ! k
                      - joint_damping (bodies self ! (controlled_joints self ! (k mod n_dofs self)))
                          * h (storage qd) ! k"
      using kB by (simp add: h' fdata lc lqd lfd n_def)
  qed
qed

theorem forward_dynamics_damps_in_place_witness:
  "\<exists>h' r. compute_forward_dynamics damped_pendulum (heap_of [[Fin 0], [Fin 3], [Fin 10]])
            [Tensor (cpu_tensor 0 [1]), Tensor (cpu_tensor 1 [1]), Tensor (cpu_tensor 2 [1]),
             Bool True, Bool True] = (h', Inr r)
      \<and> last (tshape (cpu_tensor 2 [1])) = n_dofs damped_pendulum
      \<and> length (heap_of [[Fin 0], [Fin 3], [Fin 10]] (storage (cpu_tensor 2 [1])))
           = prod_list (tshape (cpu_tensor 2 [1]))
      \<and> length (heap_of [[Fin 0], [Fin 3], [Fin 10]] (storage (cpu_tensor 1 [1])))
           = prod_list (tshape (cpu_tensor 1 [1]))
      \<and> r = RTensor \<lparr>vshape = [1], vdata = [Fin 4]\<rparr>
      \<and> h' 2 ! 0 = Fin 4
      \<and> h' 1 = [Fin 3]"
proof -
  let ?h = "heap_of [[Fin 0], [Fin 3], [Fin 10]]"
  let ?call = "compute_forward_dynamics damped_pendulum ?h
            [Tensor (cpu_tensor 0 [1]), Tensor (cpu_tensor 1 [1]), Tensor (cpu_tensor 2 [1]),
             Bool True, Bool True]"
  have "snd ?call = Inr (RTensor \<lparr>vshape = [1], vdata = [Fin 4]\<rparr>)"
    by (simp add: example_defs raise_defs algebra_defs kinematics_defs aba_defs wrapper_defs
          damping_constants_def damping_step_def)
  then obtain h' r where c: "?call = (h', Inr r)"
    and r: "r = RTensor \<lparr>vshape = [1], vdata = [Fin 4]\<rparr>"
    by (cases ?call) auto
  have pre: "last (tshape (cpu_tensor 2 [1])) = n_dofs damped_pendulum"
      "length (?h (storage (cpu_tensor 2 [1]))) = prod_list (tshape (cpu_tensor 2 [1]))"
      "length (?h (storage (cpu_tensor 1 [1]))) = prod_list (tshape (cpu_tensor 1 [1]))"
    by (simp_all add: example_defs)
  from forward_dynamics_damps_in_place[of damped_pendulum ?h "cpu_tensor 0 [1]" "cpu_tensor 1 [1]"
         "cpu_tensor 2 [1]" True h' r] c pre
  have "h' 2 ! 0 = Fin 4" "h' 1 = [Fin 3]"
    by (simp_all add: example_defs minus_fl_def)
  with c r pre show ?thesis by blast
qed

subsection \<open>Forward dynamics on a link without mass\<close>

text \<open>
  Claim C2. The division of line 881, \<^verbatim>\<open>(1.0 / body.d) * (body.u - body.U.dot(body.acc))\<close>,
  has no smoothing constant. For the base with one revolute link without mass and
  inertia, at rest and without applied force, the effective inertia \<open>d\<close> of the joint
  is zero and the returned joint acceleration is not-a-number.
\<close>

theorem forward_dynamics_massless_link_nan:
  "snd (compute_forward_dynamics massless_pendulum (heap_of [[Fin 0], [Fin 0], [Fin 0]])
          [Tensor (cpu_tensor 0 [1, 1]), Tensor (cpu_tensor 1 [1, 1]), Tensor (cpu_tensor 2 [1, 1]),
           Bool True, Bool False])
     = Inr (RTensor \<lparr>vshape = [1, 1], vdata = [NaN]\<rparr>)"
  by (simp add: example_defs raise_defs algebra_defs kinematics_defs aba_defs wrapper_defs)

subsection \<open>The Jacobians of all links on a tree with a branch\<close>

text \<open>
  Claim C5. On the robot with two links at the base, at \<open>q = (0, 0)\<close>, the Jacobian of
  the link \<open>left\<close> has the angular column \<open>(0, 0, 1)\<close> for its own joint, and the
  entry of that link in the Jacobians of all links has the column zero: the walk of
  \<^verbatim>\<open>compute_endeffector_jacobian_all_links\<close> starts at the last link and never reaches
  the joint of the other branch.
\<close>

theorem jacobian_all_links_differs_on_branch:
  "(case compute_endeffector_jacobian two_arms [Fin 0, Fin 0] ''left'' of
      Some (Inr (s, lin_jac, ang_jac)) \<Rightarrow> Some (ang_jac ! 0)
    | _ \<Rightarrow> None) = Some (Fin 0, Fin 0, Fin 1)
   \<and> (case compute_endeffector_jacobian_all_links two_arms [Fin 0, Fin 0] of
      Some (Inr (s, lin_jac, ang_jac)) \<Rightarrow> Some (ang_jac ! 1 ! 0)
    | _ \<Rightarrow> None) = Some (Fin 0, Fin 0, Fin 0)"
  by (simp add: example_defs raise_defs algebra_defs kinematics_defs jac_defs)

subsection \<open>Forward dynamics and the width of the force tensor\<close>

text \<open>
  Claim C8. \<^verbatim>\<open>compute_forward_dynamics\<close> asserts the number of columns of \<open>q\<close> and \<open>qd\<close>
  and not that of \<open>f\<close>. With one degree of freedom and an \<open>f\<close> of two columns the call
  returns an acceleration; with two degrees of freedom and an \<open>f\<close> of one column it
  raises \<^verbatim>\<open>IndexError\<close> in the backward sweep, after the kinematic state has been
  written.
\<close>

theorem forward_dynamics_force_width_unchecked:
  "snd (compute_forward_dynamics pendulum (heap_of [[Fin 0], [Fin 0], [Fin 1, Fin 5]])
          [Tensor (cpu_tensor 0 [1, 1]), Tensor (cpu_tensor 1 [1, 1]), Tensor (cpu_tensor 2 [1, 2]),
           Bool True, Bool False])
     = Inr (RTensor \<lparr>vshape = [1, 1], vdata = [Fin 1]\<rparr>)
   \<and> snd (compute_forward_dynamics two_arms (heap_of [[Fin 0, Fin 0], [Fin 0, Fin 0], [Fin 1]])
          [Tensor (cpu_tensor 0 [1, 2]), Tensor (cpu_tensor 1 [1, 2]), Tensor (cpu_tensor 2 [1, 1]),
           Bool True, Bool False])
     = Inl IndexError"
  by (simp add: example_defs raise_defs algebra_defs kinematics_defs aba_defs wrapper_defs)

subsection \<open>Inverse dynamics followed by forward dynamics\<close>


subsection \<open>The two strategies of forward kinematics\<close>

text \<open>
  Finite transforms compose as matrices of reals do; the sweep of
  \<^verbatim>\<open>update_kinematic_state\<close> leaves in every link the product of the joint poses along
  its chain of parents, and the recursion returns the same product at the root.
\<close>

lemma is_finiteE: "is_finite a \<Longrightarrow> \<exists>x. a = Fin x"
  by (cases a) auto

lemma finite3E: "finite3 v \<Longrightarrow> \<exists>x y z. v = (Fin x, Fin y, Fin z)"
  by (cases v) (auto dest!: is_finiteE)

lemma finite_transformE:
  assumes "finite_transform T"
  obtains a b c d e f g h i x y z where
    "T = CoordinateTransform ((Fin a, Fin b, Fin c), (Fin d, Fin e, Fin f), (Fin g, Fin h, Fin i))
           (Fin x, Fin y, Fin z)"
proof -
  obtain r0 r1 r2 t where T: "T = CoordinateTransform (r0, r1, r2) t"
  proof (cases T)
    case (CoordinateTransform r t)
    then show thesis using that by (cases r) auto
  qed
  with assms have "finite3 r0" "finite3 r1" "finite3 r2" "finite3 t" by auto
  then show thesis using T that by (auto dest!: finite3E)
qed

lemma multiply_transform_finite:
  "finite_transform A \<Longrightarrow> finite_transform B \<Longrightarrow> finite_transform (multiply_transform A B)"
  by (erule finite_transformE, erule finite_transformE)
     (simp add: multiply_transform_def fsum_def)

lemma multiply_transform_assoc:
  "finite_transform A \<Longrightarrow> finite_transform B \<Longrightarrow> finite_transform C \<Longrightarrow>
   multiply_transform (multiply_transform A B) C = multiply_transform A (multiply_transform B C)"
  by (erule finite_transformE, erule finite_transformE, erule finite_transformE)
     (simp add: multiply_transform_def fsum_def algebra_simps)

lemma multiply_transform_identity:
  "finite_transform A \<Longrightarrow> multiply_transform A identity_transform = A"
  "finite_transform A \<Longrightarrow> multiply_transform identity_transform A = A"
  by (erule finite_transformE,
      simp add: multiply_transform_def fsum_def identity_transform_def eye3_def zeros3_def)+

lemma identity_finite: "finite_transform identity_transform"
  by (simp add: identity_transform_def eye3_def zeros3_def)


lemma efold_upt:
  assumes "a \<le> b" and "P a s"
      and "\<And>k s. a \<le> k \<Longrightarrow> k < b \<Longrightarrow> P k s \<Longrightarrow> \<exists>s'. step k s = Inr s' \<and> P (Suc k) s'"
  shows "\<exists>s'. efold step [a..<b] s = Inr s' \<and> P b s'"
  using assms
proof (induction "b - a" arbitrary: a s)
  case 0
  then show ?case by simp
next
  case (Suc m)
  then have ab: "a < b" by simp
  with Suc.prems(2) Suc.prems(3)[of a s] obtain s1 where s1: "step a s = Inr s1" "P (Suc a) s1"
    by auto
  have "\<exists>s'. efold step [Suc a..<b] s1 = Inr s' \<and> P b s'"
  proof (rule Suc.hyps(1))
    show "m = b - Suc a" using Suc.hyps(2) by simp
    show "Suc a \<le> b" using ab by simp
    show "P (Suc a) s1" by (rule s1)
    fix k s assume "Suc a \<le> k" "k < b" "P k s"
    then show "\<exists>s'. step k s = Inr s' \<and> P (Suc k) s'" using Suc.prems(3)[of k s] by simp
  qed
  with s1 ab show ?case by (simp add: upt_conv_Cons)
qed

lemma same_links_refl: "same_links s s"
  by (simp add: same_links_def)

lemma same_links_trans: "same_links s s' \<Longrightarrow> same_links s' s'' \<Longrightarrow> same_links s s''"
  by (simp add: same_links_def)

lemma modify_body_same_links:
  assumes "i < length (bodies s)"
      and "name (f (bodies s ! i)) = name (bodies s ! i)"
      and "joint_pose_at (f (bodies s ! i)) = joint_pose_at (bodies s ! i)"
  shows "\<exists>s'. modify_body i f s = Inr s' \<and> same_links s s'
            \<and> bodies s' = (bodies s)[i := f (bodies s ! i)]"
  using assms by (auto simp: modify_body_def same_links_def nth_list_update)

lemma list_index_nth: "distinct xs \<Longrightarrow> k < length xs \<Longrightarrow> list_index xs (xs ! k) = k"
  by (induction xs arbitrary: k) (auto simp: nth_Cons split: nat.splits)

lemma parent_index_same_links:
  "same_links s s' \<Longrightarrow> i < length (bodies s) \<Longrightarrow> parent_index s' i = parent_index s i"
  by (simp add: parent_index_def same_links_def get_name_of_parent_body_def)

lemma world_pose_root:
  assumes "proper_tree self" "links_at_rest self"
  shows "world_pose self q 0 = identity_transform"
proof -
  from assms(1) have "0 \<notin> set (controlled_joints self)"
    by (auto simp: proper_tree_def)
  with assms(2) have "joint_pose_for self q 0 = identity_transform"
    by (simp add: joint_pose_for_def links_at_rest_def)
  then show ?thesis
    by (simp add: world_pose.simps[of self q 0] multiply_transform_identity identity_finite
             split: option.splits)
qed

lemma joint_reset_loop:
  assumes "c \<le> length (bodies self)"
  shows "\<exists>s. efold (\<lambda>i. modify_body i (\<lambda>b. update_joint_state b x y)) [0..<c] self = Inr s
           \<and> same_links self s
           \<and> (\<forall>i < length (bodies self).
                 pose (bodies s ! i) = pose (bodies self ! i) \<and>
                 joint_pose (bodies s ! i) =
                   (if i < c then joint_pose_at (bodies self ! i) x else joint_pose (bodies self ! i)))"
proof (rule efold_upt[where P = "\<lambda>k s. same_links self s
           \<and> (\<forall>i < length (bodies self).
                 pose (bodies s ! i) = pose (bodies self ! i) \<and>
                 joint_pose (bodies s ! i) =
                   (if i < k then joint_pose_at (bodies self ! i) x else joint_pose (bodies self ! i)))"])
  show "0 \<le> c" by simp
  show "same_links self self \<and> (\<forall>i<length (bodies self).
        pose (bodies self ! i) = pose (bodies self ! i) \<and>
        joint_pose (bodies self ! i) =
        (if i < 0 then joint_pose_at (bodies self ! i) x else joint_pose (bodies self ! i)))"
    by (simp add: same_links_refl)
next
  fix k s
  assume k: "0 \<le> k" "k < c"
    and P: "same_links self s \<and> (\<forall>i<length (bodies self).
        pose (bodies s ! i) = pose (bodies self ! i) \<and>
        joint_pose (bodies s ! i) =
        (if i < k then joint_pose_at (bodies self ! i) x else joint_pose (bodies self ! i)))"
  from P have sl: "same_links self s" by simp
  then have n: "length (bodies s) = length (bodies self)" by (simp add: same_links_def)
  with k assms have kn: "k < length (bodies s)" by simp
  from modify_body_same_links[OF kn, of "\<lambda>b. update_joint_state b x y"]
  obtain s' where s': "modify_body k (\<lambda>b. update_joint_state b x y) s = Inr s'"
    "same_links s s'" "bodies s' = (bodies s)[k := update_joint_state (bodies s ! k) x y]"
    by (auto simp: update_joint_state_def)
  from sl kn n have jp: "joint_pose_at (bodies s ! k) = joint_pose_at (bodies self ! k)"
    by (simp add: same_links_def)
  have "\<forall>i<length (bodies self).
        pose (bodies s' ! i) = pose (bodies self ! i) \<and>
        joint_pose (bodies s' ! i) =
        (if i < Suc k then joint_pose_at (bodies self ! i) x else joint_pose (bodies self ! i))"
  proof (intro allI impI)
    fix i assume i: "i < length (bodies self)"
    with P have "pose (bodies s ! i) = pose (bodies self ! i)"
      "joint_pose (bodies s ! i) =
        (if i < k then joint_pose_at (bodies self ! i) x else joint_pose (bodies self ! i))"
      by simp_all
    with i s'(3) n jp
    show "pose (bodies s' ! i) = pose (bodies self ! i) \<and>
        joint_pose (bodies s' ! i) =
        (if i < Suc k then joint_pose_at (bodies self ! i) x else joint_pose (bodies self ! i))"
      by (cases "i = k") (simp_all add: update_joint_state_def less_Suc_eq)
  qed
  with s' sl show "\<exists>s'. modify_body k (\<lambda>b. update_joint_state b x y) s = Inr s' \<and>
        same_links self s' \<and> (\<forall>i<length (bodies self).
        pose (bodies s' ! i) = pose (bodies self ! i) \<and>
        joint_pose (bodies s' ! i) =
        (if i < Suc k then joint_pose_at (bodies self ! i) x else joint_pose (bodies self ! i)))"
    by (blast intro: same_links_trans)
qed

lemma joint_state_loop:
  assumes d: "distinct (controlled_joints self)"
      and r: "\<forall>i \<in> set (controlled_joints self). i < length (bodies self)"
      and sl0: "same_links self s0"
      and m: "m \<le> length (controlled_joints self)"
  shows "\<exists>s. efold (\<lambda>i s. ebind (nth_err (controlled_joints s) i) (\<lambda>idx.
                      modify_body idx (\<lambda>b. update_joint_state b (q ! i) (qd ! i)) s)) [0..<m] s0 = Inr s
           \<and> same_links self s
           \<and> (\<forall>i < length (bodies self).
                 pose (bodies s ! i) = pose (bodies s0 ! i) \<and>
                 joint_pose (bodies s ! i) =
                   (if i \<in> set (take m (controlled_joints self))
                    then joint_pose_at (bodies self ! i) (q ! list_index (controlled_joints self) i)
                    else joint_pose (bodies s0 ! i)))"
proof (rule efold_upt[where P = "\<lambda>k s. same_links self s
           \<and> (\<forall>i < length (bodies self).
                 pose (bodies s ! i) = pose (bodies s0 ! i) \<and>
                 joint_pose (bodies s ! i) =
                   (if i \<in> set (take k (controlled_joints self))
                    then joint_pose_at (bodies self ! i) (q ! list_index (controlled_joints self) i)
                    else joint_pose (bodies s0 ! i)))"])
  show "0 \<le> m" by simp
  show "same_links self s0 \<and> (\<forall>i<length (bodies self).
        pose (bodies s0 ! i) = pose (bodies s0 ! i) \<and>
        joint_pose (bodies s0 ! i) =
        (if i \<in> set (take 0 (controlled_joints self))
         then joint_pose_at (bodies self ! i) (q ! list_index (controlled_joints self) i)
         else joint_pose (bodies s0 ! i)))"
    using sl0 by simp
next
  fix k s
  assume k: "0 \<le> k" "k < m"
    and P: "same_links self s \<and> (\<forall>i<length (bodies self).
        pose (bodies s ! i) = pose (bodies s0 ! i) \<and>
        joint_pose (bodies s ! i) =
        (if i \<in> set (take k (controlled_joints self))
         then joint_pose_at (bodies self ! i) (q ! list_index (controlled_joints self) i)
         else joint_pose (bodies s0 ! i)))"
  let ?cj = "controlled_joints self"
  let ?idx = "?cj ! k"
  from P have sl: "same_links self s" by simp
  then have n: "length (bodies s) = length (bodies self)" and cj: "controlled_joints s = ?cj"
    by (simp_all add: same_links_def)
  from k m have kl: "k < length ?cj" by simp
  with r n have kn: "?idx < length (bodies s)" by simp
  from modify_body_same_links[OF kn, of "\<lambda>b. update_joint_state b (q ! k) (qd ! k)"]
  obtain s' where s': "modify_body ?idx (\<lambda>b. update_joint_state b (q ! k) (qd ! k)) s = Inr s'"
    "same_links s s'" "bodies s' = (bodies s)[?idx := update_joint_state (bodies s ! ?idx) (q ! k) (qd ! k)]"
    by (auto simp: update_joint_state_def)
  from sl kn n have jp: "joint_pose_at (bodies s ! ?idx) = joint_pose_at (bodies self ! ?idx)"
    by (simp add: same_links_def)
  have li: "list_index ?cj ?idx = k" by (rule list_index_nth[OF d kl])
  have tk: "set (take (Suc k) ?cj) = insert ?idx (set (take k ?cj))"
    using kl by (simp add: take_Suc_conv_app_nth)
  have "\<forall>i<length (bodies self).
        pose (bodies s' ! i) = pose (bodies s0 ! i) \<and>
        joint_pose (bodies s' ! i) =
        (if i \<in> set (take (Suc k) ?cj)
         then joint_pose_at (bodies self ! i) (q ! list_index ?cj i)
         else joint_pose (bodies s0 ! i))"
  proof (intro allI impI)
    fix i assume i: "i < length (bodies self)"
    with P have "pose (bodies s ! i) = pose (bodies s0 ! i)"
      "joint_pose (bodies s ! i) =
        (if i \<in> set (take k ?cj)
         then joint_pose_at (bodies self ! i) (q ! list_index ?cj i)
         else joint_pose (bodies s0 ! i))"
      by simp_all
    with i s'(3) n jp li
    show "pose (bodies s' ! i) = pose (bodies s0 ! i) \<and>
        joint_pose (bodies s' ! i) =
        (if i \<in> set (take (Suc k) ?cj)
         then joint_pose_at (bodies self ! i) (q ! list_index ?cj i)
         else joint_pose (bodies s0 ! i))"
      unfolding tk by (cases "i = ?idx") (simp_all add: update_joint_state_def)
  qed
  moreover have "ebind (nth_err (controlled_joints s) k) (\<lambda>idx.
                      modify_body idx (\<lambda>b. update_joint_state b (q ! k) (qd ! k)) s) = Inr s'"
    using s'(1) kl by (simp add: cj nth_err_def ebind_def)
  ultimately show "\<exists>s'. ebind (nth_err (controlled_joints s) k) (\<lambda>idx.
                      modify_body idx (\<lambda>b. update_joint_state b (q ! k) (qd ! k)) s) = Inr s' \<and>
        same_links self s' \<and> (\<forall>i<length (bodies self).
        pose (bodies s' ! i) = pose (bodies s0 ! i) \<and>
        joint_pose (bodies s' ! i) =
        (if i \<in> set (take (Suc k) (controlled_joints self))
         then joint_pose_at (bodies self ! i) (q ! list_index (controlled_joints self) i)
         else joint_pose (bodies s0 ! i)))"
    using s'(2) sl by (blast intro: same_links_trans)
qed

lemma parent_index_Some:
  "parent_index self i = Some p \<longleftrightarrow>
     (\<exists>pn. parent_body_name self (name (bodies self ! i)) = Some pn \<and> name_to_idx_map self pn = Some p)"
  by (auto simp: parent_index_def get_name_of_parent_body_def lookup_err_def ebind_def
           split: option.splits sum.splits)

lemma kinematic_loop:
  assumes pt: "proper_tree self"
      and sl0: "same_links self s0"
      and jp0: "\<forall>i<length (bodies self). joint_pose (bodies s0 ! i) = joint_pose_for self q i"
      and p0: "pose (bodies s0 ! 0) = world_pose self q 0"
  shows "\<exists>s. efold kinematic_step [1..<length (bodies self)] s0 = Inr s \<and> same_links self s
            \<and> (\<forall>i<length (bodies self). pose (bodies s ! i) = world_pose self q i)"
proof -
  let ?n = "length (bodies self)"
  let ?P = "\<lambda>k s. same_links self s
              \<and> (\<forall>i<?n. joint_pose (bodies s ! i) = joint_pose_for self q i)
              \<and> (\<forall>i<k. pose (bodies s ! i) = world_pose self q i)"
  have "\<exists>s. efold kinematic_step [1..<?n] s0 = Inr s \<and> ?P ?n s"
  proof (rule efold_upt[where P = ?P])
    from pt show "1 \<le> ?n" by (cases "bodies self") (simp_all add: proper_tree_def)
    from sl0 jp0 p0 show "?P 1 s0" by simp
  next
    fix k s
    assume k: "1 \<le> k" "k < ?n" and P: "?P k s"
    from P have sl: "same_links self s" by simp
    then have n: "length (bodies s) = ?n"
      and tabs: "parent_body_name s = parent_body_name self" "name_to_idx_map s = name_to_idx_map self"
      and nm: "name (bodies s ! k) = name (bodies self ! k)"
      using k by (simp_all add: same_links_def)
    from k have "0 < k \<and> k < ?n" by simp
    with pt have "\<exists>p<k. parent_index self k = Some p"
      unfolding proper_tree_def by blast
    then obtain p where p: "p < k" "parent_index self k = Some p" by blast
    then obtain pn where pn: "parent_body_name self (name (bodies self ! k)) = Some pn"
      "name_to_idx_map self pn = Some p"
      by (auto simp: parent_index_Some)
    from P p k have pp: "pose (bodies s ! p) = world_pose self q p" by simp
    from P k have jk: "joint_pose (bodies s ! k) = joint_pose_for self q k" by simp
    have w: "world_pose self q k = multiply_transform (world_pose self q p) (joint_pose_for self q k)"
      using p by (simp add: world_pose.simps[of self q k])
    let ?f = "\<lambda>b. b\<lparr>pose := world_pose self q k,
                    vel := add_motion_vec (joint_vel (bodies s ! k))
                             (motion_transform (vel (bodies s ! p))
                                (inverse_transform (joint_pose (bodies s ! k))))\<rparr>"
    have kn: "k < length (bodies s)" using k n by simp
    from modify_body_same_links[OF kn, of ?f]
    obtain s' where s': "modify_body k ?f s = Inr s'" "same_links s s'"
      "bodies s' = (bodies s)[k := ?f (bodies s ! k)]"
      by auto
    have step: "kinematic_step k s = Inr s'"
      using s'(1) kn p(1) k(2) n pn pp jk
      by (simp add: kinematic_step_def nth_err_def ebind_def get_name_of_parent_body_def
            lookup_err_def body_named_def body_index_def tabs nm w Let_def)
    have a: "\<forall>i<?n. joint_pose (bodies s' ! i) = joint_pose_for self q i"
    proof (intro allI impI)
      fix i assume "i < ?n"
      with P s'(3) n show "joint_pose (bodies s' ! i) = joint_pose_for self q i"
        by (cases "i = k") simp_all
    qed
    have b: "\<forall>i<Suc k. pose (bodies s' ! i) = world_pose self q i"
    proof (intro allI impI)
      fix i assume "i < Suc k"
      with P s'(3) n kn show "pose (bodies s' ! i) = world_pose self q i"
        by (cases "i = k") simp_all
    qed
    from step a b s'(2) sl show "\<exists>s'. kinematic_step k s = Inr s' \<and> ?P (Suc k) s'"
      by (blast intro: same_links_trans)
  qed
  then show ?thesis by auto
qed

lemma update_kinematic_state_poses:
  assumes pt: "proper_tree self" and len: "length q = n_dofs self" "length qd = n_dofs self"
      and rest: "links_at_rest self"
  shows "\<exists>s. update_kinematic_state self q qd = Inr s \<and> same_links self s
            \<and> (\<forall>i<length (bodies self). pose (bodies s ! i) = world_pose self q i)"
proof -
  let ?n = "length (bodies self)"
  let ?cj = "controlled_joints self"
  let ?c0 = "?cj ! 0"
  from pt have cj: "?cj \<noteq> []" "distinct ?cj" "n_dofs self = length ?cj"
    "\<forall>i \<in> set ?cj. 0 < i \<and> i < ?n" and n0: "0 < ?n"
    by (simp_all add: proper_tree_def)
  then have c0: "?c0 < ?n" by (cases ?cj) auto
  from joint_reset_loop[of ?c0 self "Fin 0" "Fin 0"] c0
  obtain s1 where s1: "efold (\<lambda>i. modify_body i (\<lambda>b. update_joint_state b (Fin 0) (Fin 0))) [0..<?c0] self = Inr s1"
    "same_links self s1"
    "\<forall>i < ?n. pose (bodies s1 ! i) = pose (bodies self ! i) \<and>
                 joint_pose (bodies s1 ! i) =
                   (if i < ?c0 then joint_pose_at (bodies self ! i) (Fin 0) else joint_pose (bodies self ! i))"
    by auto
  from joint_state_loop[OF cj(2) _ s1(2), of "length q" q qd] cj len
  obtain s2 where s2: "efold (\<lambda>i s. ebind (nth_err (controlled_joints s) i) (\<lambda>idx.
                      modify_body idx (\<lambda>b. update_joint_state b (q ! i) (qd ! i)) s)) [0..<length q] s1 = Inr s2"
    "same_links self s2"
    "\<forall>i < ?n. pose (bodies s2 ! i) = pose (bodies s1 ! i) \<and>
                 joint_pose (bodies s2 ! i) =
                   (if i \<in> set (take (length q) ?cj)
                    then joint_pose_at (bodies self ! i) (q ! list_index ?cj i)
                    else joint_pose (bodies s1 ! i))"
    by auto
  from s2(2) n0 have n2: "0 < length (bodies s2)" by (simp add: same_links_def)
  from modify_body_same_links[OF n2, of "\<lambda>b. b\<lparr>vel := zero_motion\<rparr>"]
  obtain s3 where s3: "modify_body 0 (\<lambda>b. b\<lparr>vel := zero_motion\<rparr>) s2 = Inr s3" "same_links s2 s3"
    "bodies s3 = (bodies s2)[0 := (bodies s2 ! 0)\<lparr>vel := zero_motion\<rparr>]"
    by auto
  from s2(2) s3(2) have sl3: "same_links self s3" by (rule same_links_trans)
  then have n3: "length (bodies s3) = ?n" by (simp add: same_links_def)
  have jp3: "\<forall>i<?n. joint_pose (bodies s3 ! i) = joint_pose_for self q i"
  proof (intro allI impI)
    fix i assume i: "i < ?n"
    have "joint_pose (bodies s3 ! i) = joint_pose (bodies s2 ! i)"
      using s3(3) n2 by (cases i) simp_all
    also have "\<dots> = (if i \<in> set ?cj
                    then joint_pose_at (bodies self ! i) (q ! list_index ?cj i)
                    else joint_pose (bodies s1 ! i))"
      using s2(3) i len cj(3) by simp
    also have "\<dots> = joint_pose_for self q i"
      using s1(3) i rest by (auto simp: joint_pose_for_def links_at_rest_def)
    finally show "joint_pose (bodies s3 ! i) = joint_pose_for self q i" .
  qed
  have "pose (bodies s3 ! 0) = pose (bodies s2 ! 0)" using s3(3) n2 by simp
  also have "\<dots> = pose (bodies self ! 0)" using s2(3) s1(3) n0 by simp
  also have "\<dots> = world_pose self q 0"
    using rest world_pose_root[OF pt rest] by (simp add: links_at_rest_def)
  finally have p3: "pose (bodies s3 ! 0) = world_pose self q 0" .
  from kinematic_loop[OF pt sl3 jp3 p3]
  obtain s where s: "efold kinematic_step [1..<?n] s3 = Inr s" "same_links self s"
    "\<forall>i<?n. pose (bodies s ! i) = world_pose self q i"
    by auto
  have "update_kinematic_state self q qd = Inr s"
    using len cj(1) s1(1) s2(1) s3(1) s(1) n3
    by (simp add: update_kinematic_state_def nth_err_def ebind_def)
  with s show ?thesis by blast
qed

lemma list_index_mem: "x \<in> set xs \<Longrightarrow> list_index xs x < length xs \<and> xs ! list_index xs x = x"
  by (induction xs) auto

lemma proper_tree_name_eq:
  assumes "proper_tree self" "i < length (bodies self)" "j < length (bodies self)"
  shows "name (bodies self ! i) = name (bodies self ! j) \<longleftrightarrow> i = j"
proof -
  from assms(1) have "distinct (map name (bodies self))" by (simp add: proper_tree_def)
  from nth_eq_iff_index_eq[OF this, of i j] assms(2,3) show ?thesis by simp
qed

lemma joint_state_dict_value:
  assumes pt: "proper_tree self" and len: "length q = n_dofs self"
  shows "\<exists>q_dict. joint_state_dict self q = Inr q_dict
           \<and> (\<forall>i<length (bodies self).
                 (case q_dict (name (bodies self ! i)) of
                    Some x \<Rightarrow> joint_pose_at (bodies self ! i) x
                  | None \<Rightarrow> joint_pose (bodies self ! i)) = joint_pose_for self q i)"
proof -
  let ?n = "length (bodies self)"
  let ?cj = "controlled_joints self"
  let ?nm = "\<lambda>j. name (bodies self ! (?cj ! j))"
  let ?P = "\<lambda>k m. (\<forall>j<k. m (?nm j) = Some (q ! j)) \<and> (\<forall>x. (\<forall>j<k. ?nm j \<noteq> x) \<longrightarrow> m x = None)"
  from pt have cj: "distinct ?cj" "n_dofs self = length ?cj" "\<forall>i \<in> set ?cj. i < ?n"
    by (simp_all add: proper_tree_def)
  have "\<exists>m. efold (\<lambda>i q_dict.
              ebind (nth_err ?cj i) (\<lambda>body_idx.
              ebind (nth_err (bodies self) body_idx) (\<lambda>b.
              ebind (nth_err q i) (\<lambda>qi. Inr (q_dict(name b \<mapsto> qi))))))
       [0..<length ?cj] Map.empty = Inr m \<and> ?P (length ?cj) m"
  proof (rule efold_upt[where P = ?P])
    show "0 \<le> length ?cj" by simp
    show "?P 0 Map.empty" by simp
  next
    fix k m
    assume k: "0 \<le> k" "k < length ?cj" and P: "?P k m"
    from k cj have kn: "?cj ! k < ?n" by simp
    let ?m' = "m(?nm k \<mapsto> q ! k)"
    have step: "ebind (nth_err ?cj k) (\<lambda>body_idx.
              ebind (nth_err (bodies self) body_idx) (\<lambda>b.
              ebind (nth_err q k) (\<lambda>qi. Inr (m(name b \<mapsto> qi))))) = Inr ?m'"
      using k kn len cj(2) by (simp add: nth_err_def ebind_def)
    have a: "\<forall>j<Suc k. ?m' (?nm j) = Some (q ! j)"
    proof (intro allI impI)
      fix j assume j: "j < Suc k"
      show "?m' (?nm j) = Some (q ! j)"
      proof (cases "j = k")
        case True then show ?thesis by simp
      next
        case False
        with j k have jk: "j < k" "j < length ?cj" by simp_all
        with cj(1) k have "?cj ! j \<noteq> ?cj ! k" by (simp add: nth_eq_iff_index_eq)
        moreover from jk cj have "?cj ! j < ?n" by simp
        ultimately have "?nm j \<noteq> ?nm k" using kn by (simp add: proper_tree_name_eq[OF pt])
        with P jk show ?thesis by simp
      qed
    qed
    have b: "\<forall>x. (\<forall>j<Suc k. ?nm j \<noteq> x) \<longrightarrow> ?m' x = None"
      using P by (auto simp: less_Suc_eq)
    from step a b show "\<exists>m'. ebind (nth_err ?cj k) (\<lambda>body_idx.
              ebind (nth_err (bodies self) body_idx) (\<lambda>b.
              ebind (nth_err q k) (\<lambda>qi. Inr (m(name b \<mapsto> qi))))) = Inr m' \<and> ?P (Suc k) m'"
      by blast
  qed
  then obtain m where m: "joint_state_dict self q = Inr m"
    "\<forall>j<length ?cj. m (?nm j) = Some (q ! j)"
    "\<forall>x. (\<forall>j<length ?cj. ?nm j \<noteq> x) \<longrightarrow> m x = None"
    unfolding joint_state_dict_def by blast
  have "\<forall>i<?n. (case m (name (bodies self ! i)) of
                    Some x \<Rightarrow> joint_pose_at (bodies self ! i) x
                  | None \<Rightarrow> joint_pose (bodies self ! i)) = joint_pose_for self q i"
  proof (intro allI impI)
    fix i assume i: "i < ?n"
    show "(case m (name (bodies self ! i)) of
                    Some x \<Rightarrow> joint_pose_at (bodies self ! i) x
                  | None \<Rightarrow> joint_pose (bodies self ! i)) = joint_pose_for self q i"
    proof (cases "i \<in> set ?cj")
      case True
      from list_index_mem[OF True] m(2)
      have "m (name (bodies self ! i)) = Some (q ! list_index ?cj i)" by auto
      with True show ?thesis by (simp add: joint_pose_for_def)
    next
      case False
      have "\<forall>j<length ?cj. ?nm j \<noteq> name (bodies self ! i)"
      proof (intro allI impI)
        fix j assume j: "j < length ?cj"
        with cj have "?cj ! j < ?n" by simp
        moreover from j False have "?cj ! j \<noteq> i" by auto
        ultimately show "?nm j \<noteq> name (bodies self ! i)"
          using i by (simp add: proper_tree_name_eq[OF pt])
      qed
      with m(3) have "m (name (bodies self ! i)) = None" by blast
      with False show ?thesis by (simp add: joint_pose_for_def)
    qed
  qed
  with m(1) show ?thesis by blast
qed

lemma fold_map_add_Some:
  "fold (\<lambda>c m. if P c then m ++ g c else m) cs m0 x = Some T \<Longrightarrow>
     m0 x = Some T \<or> (\<exists>c\<in>set cs. P c \<and> g c x = Some T)"
  by (induction cs arbitrary: m0) (fastforce split: if_splits)+

lemma fold_map_add_dom:
  "dom (fold (\<lambda>c m. if P c then m ++ g c else m) cs m0) =
     dom m0 \<union> (\<Union>c \<in> {c \<in> set cs. P c}. dom (g c))"
  by (induction cs arbitrary: m0) auto

lemma world_pose_finite:
  assumes "\<forall>j\<le>i. finite_transform (joint_pose_for self q j)"
  shows "finite_transform (world_pose self q i)"
  using assms
proof (induction i rule: less_induct)
  case (less i)
  have "finite_transform (case parent_index self i of
          Some p \<Rightarrow> if p < i then world_pose self q p else identity_transform
        | None \<Rightarrow> identity_transform)"
    using less by (auto simp: identity_finite split: option.splits)
  moreover from less.prems have "finite_transform (joint_pose_for self q i)" by simp
  ultimately show ?case
    by (simp add: world_pose.simps[of self q i] multiply_transform_finite)
qed

lemma children_of_iff:
  "c \<in> set (children_of self i) \<longleftrightarrow>
     1 \<le> c \<and> c < length (bodies self) \<and> parent_index self c = Some i"
  by (auto simp: children_of_def parent_index_def split: sum.splits)

lemma forward_kinematics_unfold:
  "forward_kinematics self q_dict i x =
     map_option
       (multiply_transform
          (case q_dict (name (bodies self ! i)) of
             Some q \<Rightarrow> joint_pose_at (bodies self ! i) q
           | None \<Rightarrow> joint_pose (bodies self ! i)))
       (fold (\<lambda>child m. if i < child then m ++ forward_kinematics self q_dict child else m)
          (children_of self i) [name (bodies self ! i) \<mapsto> identity_transform] x)"
  by (subst forward_kinematics.simps) (simp add: Let_def)

lemma forward_kinematics_dom:
  "dom (forward_kinematics self q_dict i) =
     insert (name (bodies self ! i))
       (\<Union>c \<in> {c \<in> set (children_of self i). i < c}. dom (forward_kinematics self q_dict c))"
proof -
  have "dom (forward_kinematics self q_dict i) =
          dom (fold (\<lambda>child m. if i < child then m ++ forward_kinematics self q_dict child else m)
                 (children_of self i) [name (bodies self ! i) \<mapsto> identity_transform])"
    by (auto simp: dom_def forward_kinematics_unfold[of self q_dict i])
  then show ?thesis by (simp add: fold_map_add_dom)
qed

lemma forward_kinematics_dom_root:
  assumes pt: "proper_tree self"
  shows "i < length (bodies self) \<Longrightarrow>
           dom (forward_kinematics self q_dict i) \<subseteq> dom (forward_kinematics self q_dict 0)"
proof (induction i rule: less_induct)
  case (less i)
  show ?case
  proof (cases "i = 0")
    case True then show ?thesis by simp
  next
    case False
    with less.prems have "0 < i \<and> i < length (bodies self)" by simp
    with pt have "\<exists>p<i. parent_index self i = Some p"
      unfolding proper_tree_def by blast
    then obtain p where p: "p < i" "parent_index self i = Some p" by blast
    with False less.prems have "i \<in> set (children_of self p)" by (simp add: children_of_iff)
    with p have "dom (forward_kinematics self q_dict i) \<subseteq> dom (forward_kinematics self q_dict p)"
      by (subst (2) forward_kinematics_dom) blast
    moreover have "dom (forward_kinematics self q_dict p) \<subseteq> dom (forward_kinematics self q_dict 0)"
      using less.IH[OF p(1)] p(1) less.prems by simp
    ultimately show ?thesis by blast
  qed
qed

lemma forward_kinematics_sound:
  assumes jpq: "\<forall>i<length (bodies self).
                 (case q_dict (name (bodies self ! i)) of
                    Some x \<Rightarrow> joint_pose_at (bodies self ! i) x
                  | None \<Rightarrow> joint_pose (bodies self ! i)) = joint_pose_for self q i"
      and fin: "\<forall>i<length (bodies self). finite_transform (joint_pose_for self q i)"
  shows "i < length (bodies self) \<Longrightarrow> forward_kinematics self q_dict i x = Some T \<Longrightarrow>
           \<exists>j<length (bodies self). x = name (bodies self ! j) \<and> finite_transform T \<and>
              world_pose self q j =
                multiply_transform
                  (case parent_index self i of
                     Some p \<Rightarrow> if p < i then world_pose self q p else identity_transform
                   | None \<Rightarrow> identity_transform) T"
proof (induction "length (bodies self) - i" arbitrary: i x T rule: less_induct)
  case less
  let ?n = "length (bodies self)"
  let ?up = "case parent_index self i of
               Some p \<Rightarrow> if p < i then world_pose self q p else identity_transform
             | None \<Rightarrow> identity_transform"
  let ?jp = "joint_pose_for self q i"
  from less.prems(1) fin have fj: "finite_transform ?jp" by simp
  have fw: "\<And>j. j < ?n \<Longrightarrow> finite_transform (world_pose self q j)"
    using fin by (auto intro!: world_pose_finite)
  from less.prems(1) have fu: "finite_transform ?up"
    by (auto simp: identity_finite fw split: option.splits)
  have wi: "world_pose self q i = multiply_transform ?up ?jp"
    by (simp add: world_pose.simps[of self q i])
  from less.prems jpq obtain T' where
    T': "fold (\<lambda>child m. if i < child then m ++ forward_kinematics self q_dict child else m)
          (children_of self i) [name (bodies self ! i) \<mapsto> identity_transform] x = Some T'"
    and T: "T = multiply_transform ?jp T'"
    by (auto simp: forward_kinematics_unfold[of self q_dict i])
  from fold_map_add_Some[OF T']
  consider "[name (bodies self ! i) \<mapsto> identity_transform] x = Some T'"
    | c where "c \<in> set (children_of self i)" "i < c" "forward_kinematics self q_dict c x = Some T'"
    by blast
  then show ?case
  proof cases
    case 1
    then have "x = name (bodies self ! i)" "T' = identity_transform"
      by (auto split: if_splits)
    with T fj wi less.prems(1) show ?thesis
      by (auto simp: multiply_transform_identity)
  next
    case 2
    then have c: "c < ?n" "parent_index self c = Some i" by (simp_all add: children_of_iff)
    with 2(2) have "?n - c < ?n - i" by simp
    from less.hyps[OF this c(1) 2(3)] c(2) 2(2)
    obtain j where j: "j < ?n" "x = name (bodies self ! j)" "finite_transform T'"
      "world_pose self q j = multiply_transform (world_pose self q i) T'"
      by auto
    from j(4) wi have "world_pose self q j = multiply_transform ?up T"
      by (simp add: T multiply_transform_assoc[OF fu fj j(3)])
    moreover from fj j(3) have "finite_transform T" by (simp add: T multiply_transform_finite)
    ultimately show ?thesis using j(1,2) by blast
  qed
qed

lemma forward_kinematics_root:
  assumes pt: "proper_tree self"
      and jpq: "\<forall>i<length (bodies self).
                 (case q_dict (name (bodies self ! i)) of
                    Some x \<Rightarrow> joint_pose_at (bodies self ! i) x
                  | None \<Rightarrow> joint_pose (bodies self ! i)) = joint_pose_for self q i"
      and fin: "\<forall>i<length (bodies self). finite_transform (joint_pose_for self q i)"
  shows "forward_kinematics self q_dict 0 x =
           (if x \<in> set (map name (bodies self))
            then Some (world_pose self q (the (name_to_idx_map self x)))
            else None)"
proof (cases "x \<in> set (map name (bodies self))")
  case True
  then obtain j where j: "j < length (bodies self)" "x = name (bodies self ! j)"
    by (auto simp: in_set_conv_nth)
  with pt have idx: "name_to_idx_map self x = Some j" by (simp add: proper_tree_def)
  from j have n0: "0 < length (bodies self)" by (cases "bodies self") simp_all
  have "x \<in> dom (forward_kinematics self q_dict j)"
    using j(2) by (subst forward_kinematics_dom) simp
  with forward_kinematics_dom_root[OF pt j(1), of q_dict]
  obtain T where T: "forward_kinematics self q_dict 0 x = Some T" by blast
  have up0: "(case parent_index self 0 of
                Some p \<Rightarrow> if p < 0 then world_pose self q p else identity_transform
              | None \<Rightarrow> identity_transform) = identity_transform"
    by (simp split: option.splits)
  from forward_kinematics_sound[OF jpq fin n0 T]
  obtain j' where j': "j' < length (bodies self)" "x = name (bodies self ! j')"
    "finite_transform T" "world_pose self q j' = multiply_transform identity_transform T"
    unfolding up0 by blast
  from j'(3,4) have wT: "world_pose self q j' = T" by (simp add: multiply_transform_identity)
  from j(2) j'(2) proper_tree_name_eq[OF pt j(1) j'(1)] have "j' = j" by simp
  with wT T idx True show ?thesis by simp
next
  case False
  have "forward_kinematics self q_dict 0 x = None"
  proof (rule ccontr)
    assume "forward_kinematics self q_dict 0 x \<noteq> None"
    then obtain T where T: "forward_kinematics self q_dict 0 x = Some T" by blast
    from pt have "0 < length (bodies self)" by (simp add: proper_tree_def)
    from forward_kinematics_sound[OF jpq fin this T]
    obtain j where "j < length (bodies self)" "x = name (bodies self ! j)" by blast
    with False show False by simp
  qed
  with False show ?thesis by simp
qed

lemma pose_dict_loop:
  assumes "\<forall>x\<in>set xs. \<exists>i<length (bodies s). name_to_idx_map s x = Some i"
  shows "efold (\<lambda>link_name pose_dict.
                  ebind (body_named s link_name) (\<lambda>b. Inr (pose_dict(link_name \<mapsto> pose b))))
           xs m0 =
         Inr (\<lambda>x. if x \<in> set xs then Some (pose (bodies s ! the (name_to_idx_map s x)))
                   else m0 x)"
  using assms
proof (induction xs arbitrary: m0)
  case Nil
  then show ?case by simp
next
  case (Cons a xs)
  then obtain i where i: "i < length (bodies s)" "name_to_idx_map s a = Some i" by auto
  then have "body_named s a = Inr (bodies s ! i)"
    by (simp add: body_named_def body_index_def lookup_err_def ebind_def)
  with Cons i show ?case
    by (auto simp: ebind_def)
qed

lemma ebind_Inr_eq: "ebind (Inr x) k = k x"
  by (simp add: ebind_def)

lemma same_links_names: "same_links self s \<Longrightarrow> map name (bodies s) = map name (bodies self)"
  by (auto simp: same_links_def intro!: nth_equalityI)

lemma two_arms_bodies:
  "length (bodies two_arms) = 3" "map name (bodies two_arms) = [''base'', ''left'', ''right'']"
  "controlled_joints two_arms = [1, 2]" "n_dofs two_arms = 2"
  by (simp_all add: example_defs)

lemma all_less_3: "(\<forall>i<3. P i) \<longleftrightarrow> P 0 \<and> P 1 \<and> P (2::nat)"
  by (auto simp: numeral_3_eq_3 numeral_2_eq_2 less_Suc_eq)

lemma two_arms_proper: "proper_tree two_arms"
proof -
  have 1: "\<forall>i < length (bodies two_arms). name_to_idx_map two_arms (name (bodies two_arms ! i)) = Some i"
    unfolding two_arms_bodies(1) all_less_3 by (simp add: example_defs)
  have 2: "\<forall>nm. nm \<notin> set (map name (bodies two_arms)) \<longrightarrow> name_to_idx_map two_arms nm = None"
    unfolding two_arms_bodies(2) by (simp add: example_defs)
  have "parent_index two_arms 1 = Some 0" "parent_index two_arms 2 = Some 0"
    by (simp_all add: example_defs parent_index_def raise_defs)
  then have 3: "\<forall>i. 0 < i \<and> i < length (bodies two_arms) \<longrightarrow> (\<exists>p < i. parent_index two_arms i = Some p)"
    unfolding two_arms_bodies(1) by (auto simp: numeral_3_eq_3 numeral_2_eq_2 less_Suc_eq)
  have 4: "bodies two_arms \<noteq> []" "distinct (map name (bodies two_arms))"
    using two_arms_bodies(1) by (auto simp: two_arms_bodies(2))
  from 1 2 3 4 show ?thesis
    unfolding proper_tree_def by (simp add: two_arms_bodies)
qed

lemma two_arms_at_rest: "links_at_rest two_arms"
  unfolding links_at_rest_def two_arms_bodies(1) all_less_3
  by (simp add: example_defs identity_transform_def)

lemma two_arms_finite:
  "\<forall>i<length (bodies two_arms). finite_transform (joint_pose_for two_arms [Fin 0, Fin 0] i)"
  unfolding two_arms_bodies(1) all_less_3
  by (simp add: example_defs joint_pose_for_def algebra_defs)

text \<open>
  Claim C4. For a robot as \<^verbatim>\<open>__init__\<close> builds it (\<open>proper_tree\<close>, with its links at rest)
  and a row \<open>q\<close> of \<open>n_dofs\<close> joint positions at which every joint pose is finite, the
  sweep (\<^verbatim>\<open>recursive=False\<close>) and the recursion over the tree (\<^verbatim>\<open>recursive=True\<close>) of
  \<^verbatim>\<open>compute_forward_kinematics_all_links\<close> both return, and return the same translation
  and rotation for every link, one entry per link name; and
  \<^verbatim>\<open>compute_forward_kinematics\<close> returns the same for every link name with either value
  of \<^verbatim>\<open>recursive\<close>. The numbers are exact here, so the results are equal rather than
  equal up to a tolerance.
\<close>

theorem forward_kinematics_strategies_agree:
  assumes pt: "proper_tree self" and rest: "links_at_rest self"
      and len: "length q = n_dofs self"
      and fin: "\<forall>i<length (bodies self). finite_transform (joint_pose_for self q i)"
  shows "\<exists>s result.
           compute_forward_kinematics_all_links self q False = Inr (s, result)
         \<and> compute_forward_kinematics_all_links self q True = Inr (self, result)
         \<and> dom result = set (get_link_names self)
         \<and> (\<forall>link_name. compute_forward_kinematics self q link_name True
                         = compute_forward_kinematics self q link_name False)"
proof -
  let ?n = "length (bodies self)"
  let ?names = "map name (bodies self)"
  let ?W = "\<lambda>x. if x \<in> set ?names then Some (world_pose self q (the (name_to_idx_map self x)))
                 else None"
  from update_kinematic_state_poses[OF pt len _ rest, of "map (\<lambda>x. Fin 0) q"] len
  obtain s where s: "update_kinematic_state self q (map (\<lambda>x. Fin 0) q) = Inr s"
    "same_links self s" "\<forall>i<?n. pose (bodies s ! i) = world_pose self q i"
    by auto
  from s(2) have tabs: "name_to_idx_map s = name_to_idx_map self" "length (bodies s) = ?n"
    by (simp_all add: same_links_def)
  have nms: "map name (bodies s) = ?names" by (rule same_links_names[OF s(2)])
  have idx: "\<forall>x\<in>set ?names. \<exists>i<?n. name_to_idx_map self x = Some i \<and> x = name (bodies self ! i)"
    using pt by (auto simp: proper_tree_def in_set_conv_nth)
  have none: "\<And>x. x \<notin> set ?names \<Longrightarrow> name_to_idx_map self x = None"
    using pt unfolding proper_tree_def by blast
  have "efold (\<lambda>link_name pose_dict.
                  ebind (body_named s link_name) (\<lambda>b. Inr (pose_dict(link_name \<mapsto> pose b))))
           (get_link_names s) Map.empty =
         Inr (\<lambda>x. if x \<in> set (get_link_names s)
                   then Some (pose (bodies s ! the (name_to_idx_map s x))) else Map.empty x)"
    by (rule pose_dict_loop) (use idx in \<open>auto simp: get_link_names_def nms tabs\<close>)
  also have "(\<lambda>x. if x \<in> set (get_link_names s)
                   then Some (pose (bodies s ! the (name_to_idx_map s x))) else Map.empty x) = ?W"
  proof (rule ext)
    fix x
    show "(if x \<in> set (get_link_names s)
           then Some (pose (bodies s ! the (name_to_idx_map s x))) else Map.empty x) = ?W x"
    proof (cases "x \<in> set ?names")
      case True
      with idx obtain i where "i < ?n" "name_to_idx_map self x = Some i" by blast
      with s(3) True show ?thesis by (simp add: get_link_names_def nms tabs)
    next
      case False
      then show ?thesis by (simp add: get_link_names_def nms)
    qed
  qed
  finally have pd: "efold (\<lambda>link_name pose_dict.
                  ebind (body_named s link_name) (\<lambda>b. Inr (pose_dict(link_name \<mapsto> pose b))))
           (get_link_names s) Map.empty = Inr ?W" .
  have sweep: "compute_forward_kinematics_all_links self q False = Inr (s, pose_result ?W)"
    by (simp only: compute_forward_kinematics_all_links_def Let_def s(1) ebind_Inr_eq pd if_False)
  from joint_state_dict_value[OF pt len]
  obtain q_dict where qd: "joint_state_dict self q = Inr q_dict"
    "\<forall>i<?n. (case q_dict (name (bodies self ! i)) of
                    Some x \<Rightarrow> joint_pose_at (bodies self ! i) x
                  | None \<Rightarrow> joint_pose (bodies self ! i)) = joint_pose_for self q i"
    by blast
  have "forward_kinematics self q_dict 0 = ?W"
    by (rule ext) (rule forward_kinematics_root[OF pt qd(2) fin])
  moreover from pt have "0 < ?n" by (simp add: proper_tree_def)
  ultimately have rec: "compute_forward_kinematics_all_links self q True = Inr (self, pose_result ?W)"
    using qd(1) by (simp add: compute_forward_kinematics_all_links_def ebind_def nth_err_def)
  have d: "dom (pose_result ?W) = set (get_link_names self)"
    by (auto simp: pose_result_def get_link_names_def dom_def)
  have single: "compute_forward_kinematics self q link_name True
                  = compute_forward_kinematics self q link_name False" for link_name
  proof (cases "link_name \<in> set ?names")
    case True
    with idx obtain i where i: "i < ?n" "name_to_idx_map self link_name = Some i" by blast
    with s(3) have "pose (bodies s ! i) = world_pose self q i" by simp
    with i True show ?thesis
      by (simp add: compute_forward_kinematics_def sweep s(1) ebind_def lookup_err_def
            pose_result_def body_named_def body_index_def tabs)
  next
    case False
    with none[OF False] show ?thesis
      by (simp add: compute_forward_kinematics_def sweep s(1) ebind_def lookup_err_def
            pose_result_def body_named_def body_index_def tabs)
  qed
  from sweep rec d single show ?thesis by blast
qed

theorem forward_kinematics_strategies_agree_witness:
  "proper_tree two_arms \<and> links_at_rest two_arms
   \<and> length [Fin 0, Fin 0] = n_dofs two_arms
   \<and> finite_transform (joint_pose_for two_arms [Fin 0, Fin 0] 0)
   \<and> finite_transform (joint_pose_for two_arms [Fin 0, Fin 0] 1)
   \<and> finite_transform (joint_pose_for two_arms [Fin 0, Fin 0] 2)
   \<and> (\<exists>s result.
         compute_forward_kinematics_all_links two_arms [Fin 0, Fin 0] False = Inr (s, result)
       \<and> compute_forward_kinematics_all_links two_arms [Fin 0, Fin 0] True = Inr (two_arms, result)
       \<and> result ''left'' = Some ((Fin 1, Fin 0, Fin 0), eye3)
       \<and> result ''right'' = Some ((Fin 0, Fin 1, Fin 0), eye3)
       \<and> dom result = set (get_link_names two_arms)
       \<and> (\<forall>link_name. compute_forward_kinematics two_arms [Fin 0, Fin 0] link_name True
                       = compute_forward_kinematics two_arms [Fin 0, Fin 0] link_name False))"
proof -
  have len: "length [Fin 0, Fin 0] = n_dofs two_arms" by (simp add: two_arms_bodies)
  have fin: "finite_transform (joint_pose_for two_arms [Fin 0, Fin 0] 0)"
    "finite_transform (joint_pose_for two_arms [Fin 0, Fin 0] 1)"
    "finite_transform (joint_pose_for two_arms [Fin 0, Fin 0] 2)"
    using two_arms_finite unfolding two_arms_bodies(1) all_less_3 by simp_all
  have ev: "\<exists>r. compute_forward_kinematics_all_links two_arms [Fin 0, Fin 0] True = Inr (two_arms, r)
              \<and> r ''left'' = Some ((Fin 1, Fin 0, Fin 0), eye3)
              \<and> r ''right'' = Some ((Fin 0, Fin 1, Fin 0), eye3)"
    by (simp add: compute_forward_kinematics_all_links_def joint_state_dict_def two_arms_bodies
          forward_kinematics.simps[of _ _ 0] forward_kinematics.simps[of _ _ "Suc 0"]
          forward_kinematics.simps[of _ _ "Suc (Suc 0)"]
          forward_kinematics.simps[of _ _ 1] forward_kinematics.simps[of _ _ 2]
          children_of_def pose_result_def map_add_def
          example_defs raise_defs algebra_defs)
  from forward_kinematics_strategies_agree[OF two_arms_proper two_arms_at_rest len two_arms_finite]
  obtain s result where
    r: "compute_forward_kinematics_all_links two_arms [Fin 0, Fin 0] False = Inr (s, result)"
       "compute_forward_kinematics_all_links two_arms [Fin 0, Fin 0] True = Inr (two_arms, result)"
       "dom result = set (get_link_names two_arms)"
       "\<forall>link_name. compute_forward_kinematics two_arms [Fin 0, Fin 0] link_name True
                       = compute_forward_kinematics two_arms [Fin 0, Fin 0] link_name False"
    by blast
  from ev r(2) have "result ''left'' = Some ((Fin 1, Fin 0, Fin 0), eye3)"
    "result ''right'' = Some ((Fin 0, Fin 1, Fin 0), eye3)" by auto
  with r two_arms_proper two_arms_at_rest len fin show ?thesis by blast
qed

subsection \<open>Inverse kinematics returns the best evaluated configuration\<close>




lemma ik_evaluated_nonempty: "ik_evaluated ops P goal i c0 \<noteq> []"
  by (subst ik_evaluated.simps) simp











end
